theory Spec2Isabelle
  imports Complex_Main
begin

section \<open>JavaScript strings\<close>

text \<open>
  A JavaScript string is a sequence of UTF-16 code units. The model uses \<open>string\<close>, so a
  character stands for a code unit below 256 (the ISO-8859-1 range), \<open>length\<close> is the
  source's \<open>.length\<close>, and the string primitives are written for that range:
  \<open>toLowerCase\<close> maps A-Z and the accented capitals 192..222 (but not the
  multiplication sign 215) to the letter 32 positions later and leaves every other code
  unit alone; \<open>trim\<close> removes tab, line feed, vertical tab, form feed, carriage return,
  space and the no-break space 160 from both ends.
\<close>

definition toLowerCase_char :: "char \<Rightarrow> char" where
  "toLowerCase_char c =
     (let n = (of_char c :: nat)
      in if (65 \<le> n \<and> n \<le> 90) \<or> (192 \<le> n \<and> n \<le> 222 \<and> n \<noteq> 215)
         then char_of (n + 32) else c)"

definition toLowerCase :: "string \<Rightarrow> string" where
  "toLowerCase s = map toLowerCase_char s"

definition isWhiteSpace :: "char \<Rightarrow> bool" where
  "isWhiteSpace c = ((of_char c :: nat) \<in> {9, 10, 11, 12, 13, 32, 160})"

definition trim :: "string \<Rightarrow> string" where
  "trim s = rev (dropWhile isWhiteSpace (rev (dropWhile isWhiteSpace s)))"

fun startsWith :: "string \<Rightarrow> string \<Rightarrow> bool" where
  "startsWith s [] = True"
| "startsWith [] (p # ps) = False"
| "startsWith (c # cs) (p # ps) = (c = p \<and> startsWith cs ps)"

text \<open>\<open>html.includes(pattern)\<close>: the pattern occurs as a contiguous run.\<close>

fun str_includes :: "string \<Rightarrow> string \<Rightarrow> bool" where
  "str_includes [] pat = (pat = [])"
| "str_includes (c # cs) pat = (startsWith (c # cs) pat \<or> str_includes cs pat)"

section \<open>Block detection (lib/block-detection.ts)\<close>

datatype BlockedReason = ip_block | robot_detected | captcha | rate_limited | unknown

record BlockDetectionResult =
  isBlocked :: bool
  reason :: "BlockedReason option"
  confidence :: real

definition CAPTCHA_PATTERNS :: "string list" where
  "CAPTCHA_PATTERNS =
    [''captcha'', ''recaptcha'', ''hcaptcha'', ''cf-turnstile'', ''challenge-form'',
     ''challenge-running'', ''g-recaptcha'', ''h-captcha'', ''arkose'', ''funcaptcha'']"

definition BOT_DETECTION_PATTERNS :: "string list" where
  "BOT_DETECTION_PATTERNS =
    [''verify you are human'', ''verify you are not a robot'', ''verify you're human'',
     ''verify you're not a robot'', ''prove you are human'', ''prove you're human'',
     ''are you a robot'', ''are you human'', ''confirm you are not a robot'',
     ''access denied'', ''access blocked'', ''blocked by'', ''suspicious activity'',
     ''unusual traffic'', ''automated access'', ''bot detected'', ''robot detected'',
     ''automated request'', ''please enable javascript'', ''javascript is required'',
     ''browser check'', ''security check'']"

definition CLOUDFLARE_PATTERNS :: "string list" where
  "CLOUDFLARE_PATTERNS =
    [''cloudflare'', ''cf-ray'', ''checking your browser'', ''just a moment'',
     ''please wait while we verify'', ''ddos protection'', ''ray id:'',
     ''performance & security by cloudflare'', ''__cf_bm'', ''cf_chl_opt'']"

definition RATE_LIMIT_PATTERNS :: "string list" where
  "RATE_LIMIT_PATTERNS =
    [''rate limit'', ''rate-limit'', ''ratelimit'', ''too many requests'', ''slow down'',
     ''request limit exceeded'', ''quota exceeded'', ''throttled'']"

definition IP_BLOCK_PATTERNS :: "string list" where
  "IP_BLOCK_PATTERNS =
    [''ip blocked'', ''ip banned'', ''your ip'', ''ip address'', ''blocked ip'',
     ''banned ip'', ''forbidden'', ''403 forbidden'']"

text \<open>\<open>patterns.some((pattern) => html.includes(pattern))\<close>\<close>

definition containsAny :: "string \<Rightarrow> string list \<Rightarrow> bool" where
  "containsAny html patterns = list_ex (\<lambda>pattern. str_includes html pattern) patterns"

text \<open>
  A \<open>Record<string, string>\<close> of headers is the list of its entries in the order of
  \<open>Object.entries\<close>. \<open>normalizeHeaders\<close> writes each value under the lowercased key,
  so of two keys that differ in case only, the later entry stays.
\<close>

type_synonym headers = "(string \<times> string) list"

fun normalizeHeaders_loop :: "headers \<Rightarrow> (string \<rightharpoonup> string) \<Rightarrow> (string \<rightharpoonup> string)" where
  "normalizeHeaders_loop [] normalized = normalized"
| "normalizeHeaders_loop ((k, v) # rest) normalized =
     normalizeHeaders_loop rest (normalized(toLowerCase k \<mapsto> v))"

definition normalizeHeaders :: "headers \<Rightarrow> (string \<rightharpoonup> string)" where
  "normalizeHeaders hs = normalizeHeaders_loop hs Map.empty"

text \<open>A header value read in a condition: \<open>undefined\<close> and the empty string are falsy.\<close>

definition truthy :: "string option \<Rightarrow> bool" where
  "truthy v = (case v of None \<Rightarrow> False | Some s \<Rightarrow> s \<noteq> [])"

definition blocked :: "BlockedReason \<Rightarrow> real \<Rightarrow> BlockDetectionResult" where
  "blocked r c = \<lparr>isBlocked = True, reason = Some r, confidence = c\<rparr>"

definition notBlocked :: BlockDetectionResult where
  "notBlocked = \<lparr>isBlocked = False, reason = None, confidence = 0\<rparr>"

definition detectBlock :: "int \<Rightarrow> string \<Rightarrow> headers \<Rightarrow> BlockDetectionResult" where
  "detectBlock statusCode html hdrs =
    (let normalizedHeaders = normalizeHeaders hdrs;
         lowerHtml = toLowerCase html
     in
     if truthy (normalizedHeaders ''retry-after'')
        \<or> normalizedHeaders ''x-ratelimit-remaining'' = Some ''0''
        \<or> normalizedHeaders ''x-rate-limit-remaining'' = Some ''0''
     then blocked rate_limited 0.95
     else if statusCode = 429 then blocked rate_limited 0.95
     else if statusCode = 403 then
       (if containsAny lowerHtml CAPTCHA_PATTERNS then blocked captcha 0.9
        else if containsAny lowerHtml BOT_DETECTION_PATTERNS then blocked robot_detected 0.85
        else blocked ip_block 0.8)
     else if statusCode = 503 then
       (if containsAny lowerHtml CLOUDFLARE_PATTERNS then blocked robot_detected 0.85
        else blocked ip_block 0.6)
     else if statusCode = 401 \<and> containsAny lowerHtml IP_BLOCK_PATTERNS
     then blocked ip_block 0.7
     else if containsAny lowerHtml CAPTCHA_PATTERNS then
       (if length html < 50000 then blocked captcha 0.9 else blocked captcha 0.6)
     else if containsAny lowerHtml CLOUDFLARE_PATTERNS then
       (if length html < 15000 then blocked robot_detected 0.85 else notBlocked)
     else if containsAny lowerHtml BOT_DETECTION_PATTERNS then
       (if length html < 20000 then blocked robot_detected 0.8
        else blocked robot_detected 0.5)
     else if containsAny lowerHtml RATE_LIMIT_PATTERNS then blocked rate_limited 0.75
     else if containsAny lowerHtml IP_BLOCK_PATTERNS then
       (if length html < 20000 then blocked ip_block 0.7 else blocked ip_block 0.4)
     else if length (trim html) = 0 \<and> statusCode = 200 then blocked unknown 0.3
     else notBlocked)"

text \<open>The header condition of \<open>detectBlock\<close>, named for the statements below.\<close>

definition rateLimitHeader :: "headers \<Rightarrow> bool" where
  "rateLimitHeader hdrs =
    (truthy (normalizeHeaders hdrs ''retry-after'')
     \<or> normalizeHeaders hdrs ''x-ratelimit-remaining'' = Some ''0''
     \<or> normalizeHeaders hdrs ''x-rate-limit-remaining'' = Some ''0'')"


text \<open>
  The statuses and headers under which \<open>detectBlock\<close> reaches the checks of the body
  text: no rate-limit header, a status other than 429, 403 and 503, and not a 401 whose
  body has an IP-block pattern.
\<close>

definition bodyRules :: "int \<Rightarrow> string \<Rightarrow> headers \<Rightarrow> bool" where
  "bodyRules s b h =
     (\<not> rateLimitHeader h \<and> s \<noteq> 429 \<and> s \<noteq> 403 \<and> s \<noteq> 503
      \<and> \<not> (s = 401 \<and> containsAny (toLowerCase b) IP_BLOCK_PATTERNS))"

text \<open>
  Both pipelines (\<open>scrapeWithPlaywright\<close> and \<open>scrapeWithTlsClient\<close>) attach the reason
  to the response with the same statement:
  \<open>if (blockResult.isBlocked && blockResult.confidence >= 0.5) blockedReason = blockResult.reason\<close>.
\<close>

definition blockedReason_playwright :: "BlockDetectionResult \<Rightarrow> BlockedReason option" where
  "blockedReason_playwright blockResult =
     (if isBlocked blockResult \<and> confidence blockResult \<ge> 0.5 then reason blockResult
      else None)"

definition blockedReason_tlsclient :: "BlockDetectionResult \<Rightarrow> BlockedReason option" where
  "blockedReason_tlsclient blockResult =
     (if isBlocked blockResult \<and> confidence blockResult \<ge> 0.5 then reason blockResult
      else None)"

subsection \<open>The precedence table as a list of rules\<close>

text \<open>
  A rule is a precondition and an output, both functions of the input
  \<open>(status, body, headers)\<close>; a table answers with the output of its first rule whose
  precondition holds.
\<close>

type_synonym detect_input = "int \<times> string \<times> headers"

type_synonym rule = "(detect_input \<Rightarrow> bool) \<times> (detect_input \<Rightarrow> BlockDetectionResult)"

fun first_match :: "rule list \<Rightarrow> detect_input \<Rightarrow> BlockDetectionResult" where
  "first_match [] x = notBlocked"
| "first_match (r # rules) x = (if fst r x then snd r x else first_match rules x)"

definition present :: "string option \<Rightarrow> bool" where
  "present v = (case v of None \<Rightarrow> False | Some s \<Rightarrow> True)"

text \<open>
  The twelve rules in the words of the specification: rule 1 asks for \<open>retry-after\<close> to
  be present, and rule 5 answers every input of status 401, with "not blocked" when the
  body has no IP-block pattern.
\<close>

definition precedence_table :: "rule list" where
  "precedence_table =
    [(\<lambda>(s, b, h). present (normalizeHeaders h ''retry-after'')
          \<or> normalizeHeaders h ''x-ratelimit-remaining'' = Some ''0''
          \<or> normalizeHeaders h ''x-rate-limit-remaining'' = Some ''0'',
      \<lambda>(s, b, h). blocked rate_limited 0.95),
     (\<lambda>(s, b, h). s = 429,
      \<lambda>(s, b, h). blocked rate_limited 0.95),
     (\<lambda>(s, b, h). s = 403,
      \<lambda>(s, b, h). if containsAny (toLowerCase b) CAPTCHA_PATTERNS then blocked captcha 0.9
          else if containsAny (toLowerCase b) BOT_DETECTION_PATTERNS
          then blocked robot_detected 0.85
          else blocked ip_block 0.8),
     (\<lambda>(s, b, h). s = 503,
      \<lambda>(s, b, h). if containsAny (toLowerCase b) CLOUDFLARE_PATTERNS
          then blocked robot_detected 0.85
          else blocked ip_block 0.6),
     (\<lambda>(s, b, h). s = 401,
      \<lambda>(s, b, h). if containsAny (toLowerCase b) IP_BLOCK_PATTERNS then blocked ip_block 0.7
          else notBlocked),
     (\<lambda>(s, b, h). containsAny (toLowerCase b) CAPTCHA_PATTERNS,
      \<lambda>(s, b, h). if length b < 50000 then blocked captcha 0.9 else blocked captcha 0.6),
     (\<lambda>(s, b, h). containsAny (toLowerCase b) CLOUDFLARE_PATTERNS,
      \<lambda>(s, b, h). if length b < 15000 then blocked robot_detected 0.85 else notBlocked),
     (\<lambda>(s, b, h). containsAny (toLowerCase b) BOT_DETECTION_PATTERNS,
      \<lambda>(s, b, h). if length b < 20000 then blocked robot_detected 0.8
          else blocked robot_detected 0.5),
     (\<lambda>(s, b, h). containsAny (toLowerCase b) RATE_LIMIT_PATTERNS,
      \<lambda>(s, b, h). blocked rate_limited 0.75),
     (\<lambda>(s, b, h). containsAny (toLowerCase b) IP_BLOCK_PATTERNS,
      \<lambda>(s, b, h). if length b < 20000 then blocked ip_block 0.7 else blocked ip_block 0.4),
     (\<lambda>(s, b, h). s = 200 \<and> length (trim b) = 0,
      \<lambda>(s, b, h). blocked unknown 0.3),
     (\<lambda>(s, b, h). True,
      \<lambda>(s, b, h). notBlocked)]"

text \<open>
  The table the code follows. Rule 1 asks for a non-empty \<open>retry-after\<close> value, and
  rule 5 holds only for a 401 whose body has an IP-block pattern, so that any other 401
  goes on to rules 6 to 12.
\<close>

definition precedence_table_amended :: "rule list" where
  "precedence_table_amended =
    [(\<lambda>(s, b, h). truthy (normalizeHeaders h ''retry-after'')
          \<or> normalizeHeaders h ''x-ratelimit-remaining'' = Some ''0''
          \<or> normalizeHeaders h ''x-rate-limit-remaining'' = Some ''0'',
      \<lambda>(s, b, h). blocked rate_limited 0.95),
     (\<lambda>(s, b, h). s = 429,
      \<lambda>(s, b, h). blocked rate_limited 0.95),
     (\<lambda>(s, b, h). s = 403,
      \<lambda>(s, b, h). if containsAny (toLowerCase b) CAPTCHA_PATTERNS then blocked captcha 0.9
          else if containsAny (toLowerCase b) BOT_DETECTION_PATTERNS
          then blocked robot_detected 0.85
          else blocked ip_block 0.8),
     (\<lambda>(s, b, h). s = 503,
      \<lambda>(s, b, h). if containsAny (toLowerCase b) CLOUDFLARE_PATTERNS
          then blocked robot_detected 0.85
          else blocked ip_block 0.6),
     (\<lambda>(s, b, h). s = 401 \<and> containsAny (toLowerCase b) IP_BLOCK_PATTERNS,
      \<lambda>(s, b, h). blocked ip_block 0.7),
     (\<lambda>(s, b, h). containsAny (toLowerCase b) CAPTCHA_PATTERNS,
      \<lambda>(s, b, h). if length b < 50000 then blocked captcha 0.9 else blocked captcha 0.6),
     (\<lambda>(s, b, h). containsAny (toLowerCase b) CLOUDFLARE_PATTERNS,
      \<lambda>(s, b, h). if length b < 15000 then blocked robot_detected 0.85 else notBlocked),
     (\<lambda>(s, b, h). containsAny (toLowerCase b) BOT_DETECTION_PATTERNS,
      \<lambda>(s, b, h). if length b < 20000 then blocked robot_detected 0.8
          else blocked robot_detected 0.5),
     (\<lambda>(s, b, h). containsAny (toLowerCase b) RATE_LIMIT_PATTERNS,
      \<lambda>(s, b, h). blocked rate_limited 0.75),
     (\<lambda>(s, b, h). containsAny (toLowerCase b) IP_BLOCK_PATTERNS,
      \<lambda>(s, b, h). if length b < 20000 then blocked ip_block 0.7 else blocked ip_block 0.4),
     (\<lambda>(s, b, h). s = 200 \<and> length (trim b) = 0,
      \<lambda>(s, b, h). blocked unknown 0.3),
     (\<lambda>(s, b, h). True,
      \<lambda>(s, b, h). notBlocked)]"

section \<open>JavaScript numbers\<close>

text \<open>
  A JavaScript number is an IEEE 754 double. Every finite double is a whole multiple of
  the smallest positive one, \<open>2^-1074\<close>, and so is the exact sum of two doubles:
  \<open>Num k\<close> stands for the value \<open>k * 2^-1074\<close>. The sum of two finite doubles is the
  exact sum rounded to 53 significant bits, ties to the even neighbour, and an
  infinity when the rounded value is beyond the largest double. The sign of zero is not
  modelled (no function below divides or prints a number).
\<close>

datatype number = Num int | PosInfinity | NegInfinity | NaN

text \<open>The integer \<open>n\<close> as a number (a double when \<open>n\<close> has at most 53 significant bits).\<close>

definition js_int :: "int \<Rightarrow> number" where
  "js_int n = Num (n * 2 ^ 1074)"

text \<open>How many low bits a magnitude loses to fit in 53 bits.\<close>

function shift_of :: "int \<Rightarrow> nat" where
  "shift_of a = (if a < 2 ^ 53 then 0 else Suc (shift_of (a div 2)))"
  by pat_completeness auto
termination
  by (relation "measure nat") auto

declare shift_of.simps [simp del]

definition round_double :: "int \<Rightarrow> number" where
  "round_double k =
    (let a = \<bar>k\<bar>;
         sh = shift_of a;
         q = a div 2 ^ sh;
         r = a mod 2 ^ sh;
         q' = (if 2 ^ sh < 2 * r \<or> (2 * r = 2 ^ sh \<and> odd q) then q + 1 else q);
         v = q' * 2 ^ sh
     in if 2 ^ 2098 \<le> v then (if k < 0 then NegInfinity else PosInfinity)
        else Num (sgn k * v))"

text \<open>\<open>a + b\<close>\<close>

fun js_add :: "number \<Rightarrow> number \<Rightarrow> number" where
  "js_add NaN b = NaN"
| "js_add a NaN = NaN"
| "js_add PosInfinity NegInfinity = NaN"
| "js_add NegInfinity PosInfinity = NaN"
| "js_add PosInfinity b = PosInfinity"
| "js_add a PosInfinity = PosInfinity"
| "js_add NegInfinity b = NegInfinity"
| "js_add a NegInfinity = NegInfinity"
| "js_add (Num x) (Num y) = round_double (x + y)"

text \<open>\<open>a <= b\<close> on numbers other than NaN.\<close>

fun js_le :: "number \<Rightarrow> number \<Rightarrow> bool" where
  "js_le NegInfinity b = True"
| "js_le a PosInfinity = True"
| "js_le PosInfinity b = False"
| "js_le a NegInfinity = False"
| "js_le (Num x) (Num y) = (x \<le> y)"
| "js_le a b = False"

text \<open>\<open>Math.min(a, b)\<close>: NaN when either argument is.\<close>

definition js_min :: "number \<Rightarrow> number \<Rightarrow> number" where
  "js_min a b = (if a = NaN \<or> b = NaN then NaN else if js_le a b then a else b)"

text \<open>The exact value of a finite number (0 stands in for the others).\<close>

definition exact_value :: "number \<Rightarrow> rat" where
  "exact_value x = (case x of Num k \<Rightarrow> of_int k / 2 ^ 1074 | _ \<Rightarrow> 0)"

section \<open>Requests (types/request.ts)\<close>

text \<open>
  The numbers of the request are JavaScript numbers (\<open>z.number()\<close> accepts every
  double but NaN).
  A field that the code reads with a fallback (\<open>request.timeout ?? 300000\<close>) is an
  option, \<open>None\<close> standing for \<open>undefined\<close>. The engine is kept as a string, since
  the router and \<open>getEngineMaxTime\<close> both have a branch for a value outside the three
  engine names. The free-form \<open>metadata\<close> of an \<open>executeJavascript\<close> action is left
  out.
\<close>

datatype ScrollDirection = up | down

datatype Action =
    WaitAction "number option"
  | ClickAction string
  | TypeAction string string
  | ScrollAction ScrollDirection "number option" "string option"
  | ScreenshotAction bool "(number \<times> number) option"
  | ScrapeAction "string option"
  | ExecuteJavascriptAction string
  | PdfAction

record Cookie =
  cookie_name :: string
  cookie_value :: string
  cookie_domain :: "string option"
  cookie_path :: "string option"
  cookie_expires :: "number option"
  cookie_httpOnly :: "bool option"
  cookie_secure :: "bool option"
  cookie_sameSite :: "string option"

record Geolocation =
  country :: "string option"
  languages :: "string list option"

record ProxyProfile =
  server :: string
  username :: "string option"
  password :: "string option"

record ScrapeRequest =
  url :: string
  engine :: "string option"
  headers :: "headers option"
  cookies :: "Cookie list option"
  userAgent :: "string option"
  timeout :: "number option"
  wait :: "number option"
  actions :: "Action list option"
  waitUntil :: "string option"
  waitForSelector :: "string option"
  screenshot :: bool
  fullPageScreenshot :: bool
  proxy :: "string option"
  proxyProfile :: "ProxyProfile option"
  mobileProxy :: "bool option"
  stealth :: bool
  blockMedia :: bool
  blockAds :: bool
  mobile :: bool
  geolocation :: "Geolocation option"
  skipTlsVerification :: bool
  instantReturn :: bool
  priority :: number
  logRequest :: bool
  saveScrapeResultToGCS :: bool
  zeroDataRetention :: bool
  disableSmartWaitCache :: "bool option"
  atsv :: "bool option"
  disableJsDom :: "bool option"

section \<open>Engine router (engines/index.ts)\<close>

text \<open>
  The loop of \<open>getEngineMaxTime\<close> over \<open>request.actions\<close>, with its accumulator:
  \<open>actionTime += action.milliseconds ?? 1000\<close> for a wait action, \<open>actionTime += 250\<close>
  for any other.
\<close>

fun actionTime_loop :: "Action list \<Rightarrow> number \<Rightarrow> number" where
  "actionTime_loop [] actionTime = actionTime"
| "actionTime_loop (WaitAction milliseconds # rest) actionTime =
     actionTime_loop rest
       (js_add actionTime (case milliseconds of None \<Rightarrow> js_int 1000 | Some ms \<Rightarrow> ms))"
| "actionTime_loop (a # rest) actionTime = actionTime_loop rest (js_add actionTime (js_int 250))"

definition getEngineMaxTime :: "ScrapeRequest \<Rightarrow> number" where
  "getEngineMaxTime request =
    (let eng = (case engine request of None \<Rightarrow> ''chrome-cdp'' | Some e \<Rightarrow> e);
         baseTimeout = (case timeout request of None \<Rightarrow> js_int 300000 | Some t \<Rightarrow> t);
         waitTime = (case wait request of None \<Rightarrow> js_int 0 | Some w \<Rightarrow> w)
     in
     if eng = ''tlsclient'' then js_min (js_int 15000) baseTimeout
     else if eng = ''playwright'' then js_min (js_add waitTime (js_int 30000)) baseTimeout
     else
       (let actionTime = (case actions request of None \<Rightarrow> js_int 0
                          | Some acts \<Rightarrow> actionTime_loop acts (js_int 0))
        in js_min (js_add (js_add waitTime actionTime) (js_int 30000)) baseTimeout))"

text \<open>
  What one action adds to the bound, in the words of the specification: a wait action
  its milliseconds (1000 when it has none), any other action 250.
\<close>

definition action_contribution :: "Action \<Rightarrow> number" where
  "action_contribution a =
     (case a of
        WaitAction milliseconds \<Rightarrow> (case milliseconds of None \<Rightarrow> js_int 1000 | Some ms \<Rightarrow> ms)
      | _ \<Rightarrow> js_int 250)"

text \<open>
  The bound in the words of the specification, computed on exact values:
  \<open>min(15000, timeout)\<close>, \<open>min(wait + 30000, timeout)\<close> and
  \<open>min(wait + sum of the actions + 30000, timeout)\<close>.
\<close>

definition exact_bound :: "ScrapeRequest \<Rightarrow> rat" where
  "exact_bound request =
    (let eng = (case engine request of None \<Rightarrow> ''chrome-cdp'' | Some e \<Rightarrow> e);
         t = (case timeout request of None \<Rightarrow> 300000 | Some x \<Rightarrow> exact_value x);
         w = (case wait request of None \<Rightarrow> 0 | Some x \<Rightarrow> exact_value x);
         acts = (case actions request of None \<Rightarrow> [] | Some l \<Rightarrow> l)
     in
     if eng = ''tlsclient'' then min 15000 t
     else if eng = ''playwright'' then min (w + 30000) t
     else min (w + sum_list (map (\<lambda>a. exact_value (action_contribution a)) acts) + 30000) t)"

text \<open>An optional field that holds the integer \<open>n\<close>, or is absent with the default \<open>n\<close>.\<close>

definition field_int :: "number option \<Rightarrow> int \<Rightarrow> int \<Rightarrow> bool" where
  "field_int f d n = (case f of None \<Rightarrow> n = d | Some x \<Rightarrow> x = js_int n)"

text \<open>The request that the schema's defaults give for a URL alone.\<close>

definition defaultRequest :: "string \<Rightarrow> ScrapeRequest" where
  "defaultRequest u =
    \<lparr>url = u, engine = Some ''chrome-cdp'', headers = None, cookies = None, userAgent = None,
     timeout = Some (js_int 300000), wait = Some (js_int 0), actions = None, waitUntil = None,
     waitForSelector = None, screenshot = False, fullPageScreenshot = False, proxy = None,
     proxyProfile = None, mobileProxy = None, stealth = True, blockMedia = True,
     blockAds = True, mobile = False, geolocation = None, skipTlsVerification = False,
     instantReturn = False, priority = js_int 1, logRequest = True,
     saveScrapeResultToGCS = False, zeroDataRetention = False, disableSmartWaitCache = None,
     atsv = None, disableJsDom = None\<rparr>"

text \<open>
  A request whose two wait actions add up to \<open>2^53 + 1\<close> milliseconds, under a timeout of
  \<open>2^60\<close>.
\<close>

definition longWaitRequest :: ScrapeRequest where
  "longWaitRequest = (defaultRequest ''https://example.com'')
     \<lparr>timeout := Some (js_int (2 ^ 60)),
      actions := Some [WaitAction (Some (js_int (2 ^ 53))), WaitAction (Some (js_int 1))]\<rparr>"

section \<open>Responses (types/response.ts)\<close>

text \<open>
  The fields of a success response that the job manager and the routes read, and the
  ones both pipelines fill; the optional fields for action results, files and storage
  links play no part in the functions below and are left out.
\<close>

record SuccessResponse =
  jobId :: "string option"
  timeTaken :: int
  content :: string
  finalUrl :: "string option"
  pageStatusCode :: int
  pageError :: "string option"
  responseHeaders :: "headers option"
  blockedReason :: "BlockedReason option"
  usedMobileProxy :: "bool option"

record ErrorResponse =
  error :: string
  code :: "string option"

datatype Response = Success SuccessResponse | Failure ErrorResponse

section \<open>Job manager (lib/job-manager.ts)\<close>

datatype JobStatus = queued | processing | completed | failed

record Job =
  job_id :: string
  request :: ScrapeRequest
  status :: JobStatus
  result :: "Response option"
  createdAt :: int
  completedAt :: "int option"

text \<open>The in-memory store \<open>jobs\<close>, a \<open>Map\<close> from job id to job.\<close>

type_synonym jobs = "string \<rightharpoonup> Job"

definition getJob :: "jobs \<Rightarrow> string \<Rightarrow> Job option" where
  "getJob js jid = js jid"

text \<open>\<open>jobs.delete(jobId)\<close> answers whether the key was there.\<close>

definition deleteJob :: "jobs \<Rightarrow> string \<Rightarrow> bool \<times> jobs" where
  "deleteJob js jid = (case js jid of None \<Rightarrow> (False, js) | Some j \<Rightarrow> (True, js(jid := None)))"

text \<open>
  \<open>updateJobStatus\<close> changes the stored job only; for an id that is not in the store it
  does nothing. \<open>now\<close> is the value of \<open>new Date()\<close> at the call.
\<close>

definition updateJobStatus ::
  "jobs \<Rightarrow> string \<Rightarrow> JobStatus \<Rightarrow> Response option \<Rightarrow> int \<Rightarrow> jobs" where
  "updateJobStatus js jid st res now =
    (case js jid of
       None \<Rightarrow> js
     | Some job \<Rightarrow>
         js(jid \<mapsto> job\<lparr>status := st,
                         result := (case res of None \<Rightarrow> result job | Some r \<Rightarrow> Some r),
                         completedAt := (if st = completed \<or> st = failed then Some now
                                         else completedAt job)\<rparr>))"

text \<open>
  What \<open>await scrape(job.request, job.id)\<close> comes back with: a response, or a thrown
  error, of which \<open>executeJob\<close> reads the message.
\<close>

datatype ScrapeOutcome = Returned SuccessResponse | Threw string

text \<open>
  \<open>executeJob\<close>. The call of \<open>scrape\<close> suspends the function, and other handlers (a
  DELETE request, the cleanup timer) may change the store meanwhile: \<open>scrape\<close> is a
  parameter that takes the store at the call and gives the outcome and the store at the
  resumption. \<open>now\<close> is the clock at the final update. In the condition
  \<open>result.pageError && !result.content\<close> an absent and an empty \<open>pageError\<close> are both
  falsy, and \<open>!result.content\<close> holds of the empty string.
\<close>

definition executeJob ::
  "(jobs \<Rightarrow> ScrapeOutcome \<times> jobs) \<Rightarrow> int \<Rightarrow> Job \<Rightarrow> jobs \<Rightarrow> Response \<times> jobs" where
  "executeJob scrape now job js =
    (let js1 = updateJobStatus js (job_id job) processing None now;
         (outcome, js2) = scrape js1
     in case outcome of
          Returned res \<Rightarrow>
            (let pageErr = (case pageError res of None \<Rightarrow> [] | Some e \<Rightarrow> e)
             in if pageErr \<noteq> [] \<and> content res = []
                then (Failure \<lparr>error = pageErr, code = None\<rparr>,
                      updateJobStatus js2 (job_id job) failed
                        (Some (Failure \<lparr>error = pageErr, code = None\<rparr>)) now)
                else (Success res,
                      updateJobStatus js2 (job_id job) completed (Some (Success res)) now))
        | Threw errorMessage \<Rightarrow>
            (Failure \<lparr>error = errorMessage, code = None\<rparr>,
             updateJobStatus js2 (job_id job) failed
               (Some (Failure \<lparr>error = errorMessage, code = None\<rparr>)) now))"

text \<open>A stored job and a response of the pipeline, for the examples.\<close>

definition exampleJob :: Job where
  "exampleJob = \<lparr>job_id = ''j1'', request = defaultRequest ''https://example.com'',
                 status = queued, result = None, createdAt = 0, completedAt = None\<rparr>"

definition exampleResponse :: "string option \<Rightarrow> string \<Rightarrow> SuccessResponse" where
  "exampleResponse err html =
     \<lparr>jobId = Some ''j1'', timeTaken = 12, content = html, finalUrl = None,
      pageStatusCode = 0, pageError = err, responseHeaders = None, blockedReason = None,
      usedMobileProxy = None\<rparr>"

section \<open>Routes (routes/delete.ts)\<close>

text \<open>
  The body of the DELETE answer, \<open>{success}\<close> or \<open>{success, message}\<close>, and the answer
  with its HTTP status (\<open>res.json\<close> without \<open>res.status\<close> answers 200).
\<close>

record DeleteBody =
  success :: bool
  message :: "string option"

record DeleteAnswer =
  httpStatus :: nat
  body :: DeleteBody

definition delete_v1_scrape :: "jobs \<Rightarrow> string \<Rightarrow> DeleteAnswer \<times> jobs" where
  "delete_v1_scrape js jid =
    (case getJob js jid of
       None \<Rightarrow>
         (\<lparr>httpStatus = 200,
           body = \<lparr>success = True, message = Some ''Job not found or already deleted''\<rparr>\<rparr>, js)
     | Some job \<Rightarrow>
         (let (deleted, js') = deleteJob js jid
          in (\<lparr>httpStatus = 200, body = \<lparr>success = deleted, message = None\<rparr>\<rparr>, js')))"

section \<open>Page slots (engines/playwright.ts)\<close>

text \<open>
  The pool is the counter \<open>activePages\<close> and the queue \<open>pageQueue\<close>; a waiter in the
  queue is the \<open>resolve\<close> of a suspended caller, named here by the caller's number.
  \<open>MAX_CONCURRENT_PAGES\<close> comes from the configuration and is a parameter.
\<close>

record Pool =
  activePages :: int
  pageQueue :: "nat list"

definition initialPool :: Pool where
  "initialPool = \<lparr>activePages = 0, pageQueue = []\<rparr>"

text \<open>
  \<open>acquirePageSlot\<close>: \<open>True\<close> when the call returns at once, \<open>False\<close> when the caller
  is suspended in the queue.
\<close>

definition acquirePageSlot :: "int \<Rightarrow> nat \<Rightarrow> Pool \<Rightarrow> bool \<times> Pool" where
  "acquirePageSlot MAX_CONCURRENT_PAGES caller p =
    (if activePages p < MAX_CONCURRENT_PAGES
     then (True, p\<lparr>activePages := activePages p + 1\<rparr>)
     else (False, p\<lparr>pageQueue := pageQueue p @ [caller]\<rparr>))"

text \<open>\<open>releasePageSlot\<close>: the waiter it resumes, if any.\<close>

definition releasePageSlot :: "Pool \<Rightarrow> nat option \<times> Pool" where
  "releasePageSlot p =
    (case pageQueue p of
       next_waiter # rest \<Rightarrow> (Some next_waiter, p\<lparr>pageQueue := rest\<rparr>)
     | [] \<Rightarrow> (None, p\<lparr>activePages := activePages p - 1\<rparr>))"

text \<open>
  A run of the pool: the calls in the order in which they happen, and what each one
  did.
\<close>

datatype PoolCall = Acquire nat | Release

datatype PoolEvent = Granted nat | Enqueued nat | Resumed nat | Decremented

fun pool_step :: "int \<Rightarrow> PoolCall \<Rightarrow> Pool \<Rightarrow> PoolEvent \<times> Pool" where
  "pool_step M (Acquire caller) p =
     (case acquirePageSlot M caller p of
        (True, p') \<Rightarrow> (Granted caller, p')
      | (False, p') \<Rightarrow> (Enqueued caller, p'))"
| "pool_step M Release p =
     (case releasePageSlot p of
        (Some w, p') \<Rightarrow> (Resumed w, p')
      | (None, p') \<Rightarrow> (Decremented, p'))"

fun pool_run :: "int \<Rightarrow> PoolCall list \<Rightarrow> Pool \<Rightarrow> PoolEvent list \<times> Pool" where
  "pool_run M [] p = ([], p)"
| "pool_run M (c # cs) p =
     (let (e, p') = pool_step M c p; (es, p'') = pool_run M cs p' in (e # es, p''))"

definition enqueued :: "PoolEvent list \<Rightarrow> nat list" where
  "enqueued es = concat (map (\<lambda>e. case e of Enqueued c \<Rightarrow> [c] | _ \<Rightarrow> []) es)"

definition resumed :: "PoolEvent list \<Rightarrow> nat list" where
  "resumed es = concat (map (\<lambda>e. case e of Resumed c \<Rightarrow> [c] | _ \<Rightarrow> []) es)"

text \<open>
  The control flow of \<open>scrapeWithPlaywright\<close> around the slot. The slot is acquired
  before the \<open>try\<close>. The body of the \<open>try\<close> returns a response, or throws an
  \<open>ActionError\<close> or another error, having opened the context and the page or not; the
  \<open>catch\<close> rethrows the first and folds the second into a response with
  \<open>pageStatusCode = 0\<close>; the \<open>finally\<close> closes the page and the context if they
  were opened, each close guarded by its own \<open>try\<close> that logs a warning, and then
  releases the slot. The function returns what the caller sees and the effects it had,
  in order.
\<close>

datatype BodyOutcome = BodyReturned SuccessResponse | ActionError string | OtherError string

datatype Effect = PoolEffect PoolCall | PageClose | ContextClose | LogWarn

definition scrapeWithPlaywright_flow ::
  "nat \<Rightarrow> string \<Rightarrow> int \<Rightarrow> BodyOutcome \<Rightarrow> bool \<Rightarrow> bool \<Rightarrow> bool \<Rightarrow> bool
    \<Rightarrow> ScrapeOutcome \<times> Effect list" where
  "scrapeWithPlaywright_flow caller jid taken outcome contextOpened pageOpened
      pageCloseFails contextCloseFails =
    (let answer = (case outcome of
             BodyReturned res \<Rightarrow> Returned res
           | ActionError msg \<Rightarrow> Threw msg
           | OtherError msg \<Rightarrow>
               Returned \<lparr>jobId = Some jid, timeTaken = taken, content = [],
                         finalUrl = None, pageStatusCode = 0, pageError = Some msg,
                         responseHeaders = None, blockedReason = None,
                         usedMobileProxy = None\<rparr>);
         closePage = (if pageOpened
                      then PageClose # (if pageCloseFails then [LogWarn] else [])
                      else []);
         closeContext = (if contextOpened
                         then ContextClose # (if contextCloseFails then [LogWarn] else [])
                         else [])
     in (answer,
         [PoolEffect (Acquire caller)] @ closePage @ closeContext @ [PoolEffect Release]))"

definition pool_calls :: "Effect list \<Rightarrow> PoolCall list" where
  "pool_calls es = concat (map (\<lambda>e. case e of PoolEffect c \<Rightarrow> [c] | _ \<Rightarrow> []) es)"

section \<open>Request validation (types/request.ts, routes/scrape.ts)\<close>

text \<open>
  The request schema is a value built with the zod combinators, and the route validates
  a body with \<open>scrapeRequestSchema.safeParse(req.body)\<close>. The model keeps that shape:
  \<open>json\<close> is a parsed JSON body, \<open>zod\<close> the combinators used in \<open>request.ts\<close>, and
  \<open>parse\<close> what \<open>safeParse\<close> computes for them. An input of \<open>None\<close> is \<open>undefined\<close> (a
  key that the object does not have). An object schema made by \<open>z.object\<close> with neither
  \<open>.strict()\<close> nor \<open>.passthrough()\<close>, as every object schema of \<open>request.ts\<close> is, reads
  the keys of its shape from the input and copies nothing else to the output: keys
  outside the shape are dropped without an issue.

  \<open>z.string().url()\<close> asks the platform's URL parser; it is the parameter \<open>validUrl\<close>.
  A \<open>JObj\<close> lists the entries of an object, each key once.
\<close>

datatype json =
    JNull | JBool bool | JNum real | JStr string | JArr "json list"
  | JObj "(string \<times> json) list"

datatype zod =
    ZString | ZUrl | ZNumber | ZBoolean | ZUnknown
  | ZLiteral string
  | ZEnum "string list"
  | ZOptional zod
  | ZDefault zod json
  | ZArray zod
  | ZRecord zod
  | ZObject "(string \<times> zod) list"
  | ZDiscriminatedUnion string "zod list"

datatype path_elem = Key string | Index nat

text \<open>An issue is the path to the offending value and zod's issue code.\<close>

type_synonym issue = "path_elem list \<times> string"

type_synonym parsed = "issue list + json option"

definition under :: "path_elem \<Rightarrow> issue list \<Rightarrow> issue list" where
  "under e issues = map (\<lambda>(path, c). (e # path, c)) issues"

definition asObject :: "json option \<Rightarrow> (string \<times> json) list option" where
  "asObject v = (case v of Some (JObj kvs) \<Rightarrow> Some kvs | _ \<Rightarrow> None)"

definition asArray :: "json option \<Rightarrow> json list option" where
  "asArray v = (case v of Some (JArr xs) \<Rightarrow> Some xs | _ \<Rightarrow> None)"

definition asString :: "json option \<Rightarrow> string option" where
  "asString v = (case v of Some (JStr s) \<Rightarrow> Some s | _ \<Rightarrow> None)"

text \<open>The schemas without a schema inside.\<close>

definition checkString :: "json option \<Rightarrow> parsed" where
  "checkString v = (case v of Some (JStr s) \<Rightarrow> Inr v | _ \<Rightarrow> Inl [([], ''invalid_type'')])"

definition checkUrl :: "(string \<Rightarrow> bool) \<Rightarrow> json option \<Rightarrow> parsed" where
  "checkUrl validUrl v =
     (case v of
        Some (JStr s) \<Rightarrow> if validUrl s then Inr v else Inl [([], ''invalid_string'')]
      | _ \<Rightarrow> Inl [([], ''invalid_type'')])"

definition checkNumber :: "json option \<Rightarrow> parsed" where
  "checkNumber v = (case v of Some (JNum n) \<Rightarrow> Inr v | _ \<Rightarrow> Inl [([], ''invalid_type'')])"

definition checkBoolean :: "json option \<Rightarrow> parsed" where
  "checkBoolean v = (case v of Some (JBool b) \<Rightarrow> Inr v | _ \<Rightarrow> Inl [([], ''invalid_type'')])"

definition checkLiteral :: "string \<Rightarrow> json option \<Rightarrow> parsed" where
  "checkLiteral l v =
     (case v of
        Some (JStr s) \<Rightarrow> if s = l then Inr v else Inl [([], ''invalid_literal'')]
      | _ \<Rightarrow> Inl [([], ''invalid_literal'')])"

definition checkEnum :: "string list \<Rightarrow> json option \<Rightarrow> parsed" where
  "checkEnum ls v =
     (case v of
        Some (JStr s) \<Rightarrow> if s \<in> set ls then Inr v else Inl [([], ''invalid_enum_value'')]
      | _ \<Rightarrow> Inl [([], ''invalid_type'')])"

text \<open>
  The results for the keys of an object, put together: every issue is kept, under its
  key; a key whose result is \<open>undefined\<close> is left out of the output.
\<close>

fun gather_fields :: "(string \<times> parsed) list \<Rightarrow> issue list \<times> (string \<times> json) list" where
  "gather_fields [] = ([], [])"
| "gather_fields ((k, r) # rest) =
     (let (issues, out) = gather_fields rest
      in case r of
           Inl is \<Rightarrow> (under (Key k) is @ issues, out)
         | Inr None \<Rightarrow> (issues, out)
         | Inr (Some y) \<Rightarrow> (issues, (k, y) # out))"

fun gather_items :: "nat \<Rightarrow> parsed list \<Rightarrow> issue list \<times> json list" where
  "gather_items i [] = ([], [])"
| "gather_items i (r # rest) =
     (let (issues, out) = gather_items (Suc i) rest
      in case r of
           Inl is \<Rightarrow> (under (Index i) is @ issues, out)
         | Inr None \<Rightarrow> (issues, JNull # out)
         | Inr (Some y) \<Rightarrow> (issues, y # out))"

definition finish_object :: "issue list \<times> (string \<times> json) list \<Rightarrow> parsed" where
  "finish_object r = (if fst r = [] then Inr (Some (JObj (snd r))) else Inl (fst r))"

definition finish_array :: "issue list \<times> json list \<Rightarrow> parsed" where
  "finish_array r = (if fst r = [] then Inr (Some (JArr (snd r))) else Inl (fst r))"

text \<open>The literal that an option of a discriminated union has for the discriminator.\<close>

fun discriminator_of :: "string \<Rightarrow> zod \<Rightarrow> string option" where
  "discriminator_of d (ZObject shape) =
     (case map_of shape d of Some (ZLiteral l) \<Rightarrow> Some l | _ \<Rightarrow> None)"
| "discriminator_of d z = None"

lemma size_zod_field:
  assumes "kz \<in> set shape"
  shows "size (snd kz) < Suc (size_list (size_prod (\<lambda>k. 0) size) shape)"
proof -
  have "size (snd kz) < size_prod (\<lambda>k. 0) size kz"
    by (cases kz) simp
  then have "size (snd kz) < size_list (size_prod (\<lambda>k. 0) size) shape"
    using assms by (rule size_list_estimation[rotated])
  then show ?thesis by simp
qed

lemma size_zod_option: "find P options = Some opt \<Longrightarrow> size opt < Suc (size_list size options)"
  by (induction options) (auto split: if_splits)

function parse :: "(string \<Rightarrow> bool) \<Rightarrow> zod \<Rightarrow> json option \<Rightarrow> parsed" where
  "parse validUrl ZString v = checkString v"
| "parse validUrl ZUrl v = checkUrl validUrl v"
| "parse validUrl ZNumber v = checkNumber v"
| "parse validUrl ZBoolean v = checkBoolean v"
| "parse validUrl ZUnknown v = Inr v"
| "parse validUrl (ZLiteral l) v = checkLiteral l v"
| "parse validUrl (ZEnum ls) v = checkEnum ls v"
| "parse validUrl (ZOptional z) v = (if v = None then Inr None else parse validUrl z v)"
| "parse validUrl (ZDefault z d) v =
     (if v = None then parse validUrl z (Some d) else parse validUrl z v)"
| "parse validUrl (ZArray z) v =
     (case asArray v of
        Some xs \<Rightarrow> finish_array (gather_items 0 (map (\<lambda>x. parse validUrl z (Some x)) xs))
      | None \<Rightarrow> Inl [([], ''invalid_type'')])"
| "parse validUrl (ZRecord z) v =
     (case asObject v of
        Some kvs \<Rightarrow>
          finish_object
            (gather_fields (map (\<lambda>kx. (fst kx, parse validUrl z (Some (snd kx)))) kvs))
      | None \<Rightarrow> Inl [([], ''invalid_type'')])"
| "parse validUrl (ZObject shape) v =
     (case asObject v of
        Some kvs \<Rightarrow>
          finish_object
            (gather_fields
              (map (\<lambda>kz. (fst kz, parse validUrl (snd kz) (map_of kvs (fst kz)))) shape))
      | None \<Rightarrow> Inl [([], ''invalid_type'')])"
| "parse validUrl (ZDiscriminatedUnion d options) v =
     (case asObject v of
        Some kvs \<Rightarrow>
          (case asString (map_of kvs d) of
             Some tag \<Rightarrow>
               (case find (\<lambda>opt. discriminator_of d opt = Some tag) options of
                  Some opt \<Rightarrow> parse validUrl opt v
                | None \<Rightarrow> Inl [([Key d], ''invalid_union_discriminator'')])
           | None \<Rightarrow> Inl [([Key d], ''invalid_union_discriminator'')])
      | None \<Rightarrow> Inl [([], ''invalid_type'')])"
  by pat_completeness auto
termination
  by (relation "measure (\<lambda>(validUrl, z, v). size z)")
     (auto simp add: size_zod_field size_zod_option)

subsection \<open>The schemas of request.ts\<close>

definition actionSchema :: zod where
  "actionSchema = ZDiscriminatedUnion ''type''
    [ZObject [(''type'', ZLiteral ''wait''),
              (''milliseconds'', ZDefault (ZOptional ZNumber) (JNum 1000))],
     ZObject [(''type'', ZLiteral ''click''), (''selector'', ZString)],
     ZObject [(''type'', ZLiteral ''type''), (''selector'', ZString), (''text'', ZString)],
     ZObject [(''type'', ZLiteral ''scroll''),
              (''direction'', ZDefault (ZOptional (ZEnum [''up'', ''down''])) (JStr ''down'')),
              (''amount'', ZOptional ZNumber),
              (''selector'', ZOptional ZString)],
     ZObject [(''type'', ZLiteral ''screenshot''),
              (''fullPage'', ZDefault (ZOptional ZBoolean) (JBool False)),
              (''viewport'',
                 ZOptional (ZObject [(''width'', ZNumber), (''height'', ZNumber)]))],
     ZObject [(''type'', ZLiteral ''scrape''), (''selector'', ZOptional ZString)],
     ZObject [(''type'', ZLiteral ''executeJavascript''), (''script'', ZString),
              (''metadata'', ZOptional (ZRecord ZUnknown))],
     ZObject [(''type'', ZLiteral ''pdf'')]]"

definition geolocationSchema :: zod where
  "geolocationSchema =
     ZObject [(''country'', ZOptional ZString), (''languages'', ZOptional (ZArray ZString))]"

definition cookieSchema :: zod where
  "cookieSchema =
     ZObject [(''name'', ZString), (''value'', ZString), (''domain'', ZOptional ZString),
              (''path'', ZOptional ZString), (''expires'', ZOptional ZNumber),
              (''httpOnly'', ZOptional ZBoolean), (''secure'', ZOptional ZBoolean),
              (''sameSite'', ZOptional (ZEnum [''Strict'', ''Lax'', ''None'']))]"

definition proxyProfileSchema :: zod where
  "proxyProfileSchema =
     ZObject [(''server'', ZString), (''username'', ZOptional ZString),
              (''password'', ZOptional ZString)]"

definition scrapeRequestShape :: "(string \<times> zod) list" where
  "scrapeRequestShape =
    [(''url'', ZUrl),
     (''engine'', ZDefault (ZEnum [''chrome-cdp'', ''playwright'', ''tlsclient''])
                    (JStr ''chrome-cdp'')),
     (''headers'', ZOptional (ZRecord ZString)),
     (''cookies'', ZOptional (ZArray cookieSchema)),
     (''userAgent'', ZOptional ZString),
     (''timeout'', ZDefault (ZOptional ZNumber) (JNum 300000)),
     (''wait'', ZDefault (ZOptional ZNumber) (JNum 0)),
     (''actions'', ZOptional (ZArray actionSchema)),
     (''waitUntil'', ZOptional (ZEnum [''load'', ''domcontentloaded'', ''networkidle''])),
     (''waitForSelector'', ZOptional ZString),
     (''screenshot'', ZDefault (ZOptional ZBoolean) (JBool False)),
     (''fullPageScreenshot'', ZDefault (ZOptional ZBoolean) (JBool False)),
     (''proxy'', ZOptional ZString),
     (''proxyProfile'', ZOptional proxyProfileSchema),
     (''mobileProxy'', ZOptional ZBoolean),
     (''stealth'', ZDefault (ZOptional ZBoolean) (JBool True)),
     (''blockMedia'', ZDefault (ZOptional ZBoolean) (JBool True)),
     (''blockAds'', ZDefault (ZOptional ZBoolean) (JBool True)),
     (''mobile'', ZDefault (ZOptional ZBoolean) (JBool False)),
     (''geolocation'', ZOptional geolocationSchema),
     (''skipTlsVerification'', ZDefault (ZOptional ZBoolean) (JBool False)),
     (''instantReturn'', ZDefault (ZOptional ZBoolean) (JBool False)),
     (''priority'', ZDefault (ZOptional ZNumber) (JNum 1)),
     (''logRequest'', ZDefault (ZOptional ZBoolean) (JBool True)),
     (''saveScrapeResultToGCS'', ZDefault (ZOptional ZBoolean) (JBool False)),
     (''zeroDataRetention'', ZDefault (ZOptional ZBoolean) (JBool False)),
     (''disableSmartWaitCache'', ZOptional ZBoolean),
     (''atsv'', ZOptional ZBoolean),
     (''disableJsDom'', ZOptional ZBoolean)]"

definition scrapeRequestSchema :: zod where
  "scrapeRequestSchema = ZObject scrapeRequestShape"

text \<open>
  The first step of POST /v1/scrape: a body that fails the schema is answered with 400
  and the issues; any other body goes on, as the parsed request, to \<open>createJob\<close>.
\<close>

datatype Validation = Rejected400 "issue list" | Accepted "json option"

definition post_v1_scrape_validate :: "(string \<Rightarrow> bool) \<Rightarrow> json option \<Rightarrow> Validation" where
  "post_v1_scrape_validate validUrl reqBody =
     (case parse validUrl scrapeRequestSchema reqBody of
        Inl issues \<Rightarrow> Rejected400 issues
      | Inr parsed_body \<Rightarrow> Accepted parsed_body)"

text \<open>The field names of an object.\<close>

definition field_names :: "json \<Rightarrow> string set" where
  "field_names j = (case j of JObj kvs \<Rightarrow> fst ` set kvs | _ \<Rightarrow> {})"

text \<open>A URL validator that accepts the URL of the examples, as the platform's does.\<close>

definition exampleUrl :: "string \<Rightarrow> bool" where
  "exampleUrl s = (s = ''https://example.com'')"

section \<open>Properties of block detection\<close>

lemma blocked_simps:
  "isBlocked (blocked r c)" "reason (blocked r c) = Some r" "confidence (blocked r c) = c"
  "\<not> isBlocked notBlocked" "reason notBlocked = None" "confidence notBlocked = 0"
  by (simp_all add: blocked_def notBlocked_def)

lemma blocked_neq_notBlocked: "blocked r c \<noteq> notBlocked"
  by (simp add: blocked_def notBlocked_def)

lemma detectBlock_unfold:
  "detectBlock s b h =
     (if rateLimitHeader h then blocked rate_limited 0.95
     else if s = 429 then blocked rate_limited 0.95
     else if s = 403 then
       (if containsAny (toLowerCase b) CAPTCHA_PATTERNS then blocked captcha 0.9
        else if containsAny (toLowerCase b) BOT_DETECTION_PATTERNS then blocked robot_detected 0.85
        else blocked ip_block 0.8)
     else if s = 503 then
       (if containsAny (toLowerCase b) CLOUDFLARE_PATTERNS then blocked robot_detected 0.85
        else blocked ip_block 0.6)
     else if s = 401 \<and> containsAny (toLowerCase b) IP_BLOCK_PATTERNS
     then blocked ip_block 0.7
     else if containsAny (toLowerCase b) CAPTCHA_PATTERNS then
       (if length b < 50000 then blocked captcha 0.9 else blocked captcha 0.6)
     else if containsAny (toLowerCase b) CLOUDFLARE_PATTERNS then
       (if length b < 15000 then blocked robot_detected 0.85 else notBlocked)
     else if containsAny (toLowerCase b) BOT_DETECTION_PATTERNS then
       (if length b < 20000 then blocked robot_detected 0.8
        else blocked robot_detected 0.5)
     else if containsAny (toLowerCase b) RATE_LIMIT_PATTERNS then blocked rate_limited 0.75
     else if containsAny (toLowerCase b) IP_BLOCK_PATTERNS then
       (if length b < 20000 then blocked ip_block 0.7 else blocked ip_block 0.4)
     else if length (trim b) = 0 \<and> s = 200 then blocked unknown 0.3
     else notBlocked)"
  unfolding detectBlock_def rateLimitHeader_def Let_def by (rule refl)

lemma detectBlock_cases:
  fixes P :: "BlockDetectionResult \<Rightarrow> bool"
  assumes "rateLimitHeader h \<Longrightarrow> P (blocked rate_limited 0.95)"
    and "\<lbrakk>\<not> rateLimitHeader h; s = 429\<rbrakk> \<Longrightarrow> P (blocked rate_limited 0.95)"
    and "\<lbrakk>\<not> rateLimitHeader h; s = 403; containsAny (toLowerCase b) CAPTCHA_PATTERNS\<rbrakk>
          \<Longrightarrow> P (blocked captcha 0.9)"
    and "\<lbrakk>\<not> rateLimitHeader h; s = 403; \<not> containsAny (toLowerCase b) CAPTCHA_PATTERNS;
          containsAny (toLowerCase b) BOT_DETECTION_PATTERNS\<rbrakk>
          \<Longrightarrow> P (blocked robot_detected 0.85)"
    and "\<lbrakk>\<not> rateLimitHeader h; s = 403; \<not> containsAny (toLowerCase b) CAPTCHA_PATTERNS;
          \<not> containsAny (toLowerCase b) BOT_DETECTION_PATTERNS\<rbrakk>
          \<Longrightarrow> P (blocked ip_block 0.8)"
    and "\<lbrakk>\<not> rateLimitHeader h; s = 503; containsAny (toLowerCase b) CLOUDFLARE_PATTERNS\<rbrakk>
          \<Longrightarrow> P (blocked robot_detected 0.85)"
    and "\<lbrakk>\<not> rateLimitHeader h; s = 503; \<not> containsAny (toLowerCase b) CLOUDFLARE_PATTERNS\<rbrakk>
          \<Longrightarrow> P (blocked ip_block 0.6)"
    and "\<lbrakk>\<not> rateLimitHeader h; s = 401; containsAny (toLowerCase b) IP_BLOCK_PATTERNS\<rbrakk>
          \<Longrightarrow> P (blocked ip_block 0.7)"
    and "\<lbrakk>bodyRules s b h; containsAny (toLowerCase b) CAPTCHA_PATTERNS; length b < 50000\<rbrakk>
          \<Longrightarrow> P (blocked captcha 0.9)"
    and "\<lbrakk>bodyRules s b h; containsAny (toLowerCase b) CAPTCHA_PATTERNS; \<not> length b < 50000\<rbrakk>
          \<Longrightarrow> P (blocked captcha 0.6)"
    and "\<lbrakk>bodyRules s b h; \<not> containsAny (toLowerCase b) CAPTCHA_PATTERNS;
          containsAny (toLowerCase b) CLOUDFLARE_PATTERNS; length b < 15000\<rbrakk>
          \<Longrightarrow> P (blocked robot_detected 0.85)"
    and "\<lbrakk>bodyRules s b h; \<not> containsAny (toLowerCase b) CAPTCHA_PATTERNS;
          containsAny (toLowerCase b) CLOUDFLARE_PATTERNS; \<not> length b < 15000\<rbrakk>
          \<Longrightarrow> P notBlocked"
    and "\<lbrakk>bodyRules s b h; \<not> containsAny (toLowerCase b) CAPTCHA_PATTERNS;
          \<not> containsAny (toLowerCase b) CLOUDFLARE_PATTERNS;
          containsAny (toLowerCase b) BOT_DETECTION_PATTERNS; length b < 20000\<rbrakk>
          \<Longrightarrow> P (blocked robot_detected 0.8)"
    and "\<lbrakk>bodyRules s b h; \<not> containsAny (toLowerCase b) CAPTCHA_PATTERNS;
          \<not> containsAny (toLowerCase b) CLOUDFLARE_PATTERNS;
          containsAny (toLowerCase b) BOT_DETECTION_PATTERNS; \<not> length b < 20000\<rbrakk>
          \<Longrightarrow> P (blocked robot_detected 0.5)"
    and "\<lbrakk>bodyRules s b h; \<not> containsAny (toLowerCase b) CAPTCHA_PATTERNS;
          \<not> containsAny (toLowerCase b) CLOUDFLARE_PATTERNS;
          \<not> containsAny (toLowerCase b) BOT_DETECTION_PATTERNS;
          containsAny (toLowerCase b) RATE_LIMIT_PATTERNS\<rbrakk>
          \<Longrightarrow> P (blocked rate_limited 0.75)"
    and "\<lbrakk>bodyRules s b h; \<not> containsAny (toLowerCase b) CAPTCHA_PATTERNS;
          \<not> containsAny (toLowerCase b) CLOUDFLARE_PATTERNS;
          \<not> containsAny (toLowerCase b) BOT_DETECTION_PATTERNS;
          \<not> containsAny (toLowerCase b) RATE_LIMIT_PATTERNS;
          containsAny (toLowerCase b) IP_BLOCK_PATTERNS; length b < 20000\<rbrakk>
          \<Longrightarrow> P (blocked ip_block 0.7)"
    and "\<lbrakk>bodyRules s b h; \<not> containsAny (toLowerCase b) CAPTCHA_PATTERNS;
          \<not> containsAny (toLowerCase b) CLOUDFLARE_PATTERNS;
          \<not> containsAny (toLowerCase b) BOT_DETECTION_PATTERNS;
          \<not> containsAny (toLowerCase b) RATE_LIMIT_PATTERNS;
          containsAny (toLowerCase b) IP_BLOCK_PATTERNS; \<not> length b < 20000\<rbrakk>
          \<Longrightarrow> P (blocked ip_block 0.4)"
    and "\<lbrakk>bodyRules s b h; \<not> containsAny (toLowerCase b) CAPTCHA_PATTERNS;
          \<not> containsAny (toLowerCase b) CLOUDFLARE_PATTERNS;
          \<not> containsAny (toLowerCase b) BOT_DETECTION_PATTERNS;
          \<not> containsAny (toLowerCase b) RATE_LIMIT_PATTERNS;
          \<not> containsAny (toLowerCase b) IP_BLOCK_PATTERNS;
          length (trim b) = 0; s = 200\<rbrakk>
          \<Longrightarrow> P (blocked unknown 0.3)"
    and "\<lbrakk>bodyRules s b h; \<not> containsAny (toLowerCase b) CAPTCHA_PATTERNS;
          \<not> containsAny (toLowerCase b) CLOUDFLARE_PATTERNS;
          \<not> containsAny (toLowerCase b) BOT_DETECTION_PATTERNS;
          \<not> containsAny (toLowerCase b) RATE_LIMIT_PATTERNS;
          \<not> containsAny (toLowerCase b) IP_BLOCK_PATTERNS;
          \<not> (length (trim b) = 0 \<and> s = 200)\<rbrakk>
          \<Longrightarrow> P notBlocked"
  shows "P (detectBlock s b h)"
proof -
  show ?thesis
    unfolding detectBlock_unfold
    apply (simp only: if_split[of P])
    apply (intro conjI impI)
    apply (rule assms; (simp add: bodyRules_def; fail))+
    done
qed

subsection \<open>Substrings and evaluation helpers\<close>

lemma startsWith_iff: "startsWith s p \<longleftrightarrow> (\<exists>ss. s = p @ ss)"
  by (induction s p rule: startsWith.induct) auto

lemma str_includes_iff: "str_includes s p \<longleftrightarrow> (\<exists>ps ss. s = ps @ p @ ss)"
proof (induction s)
  case Nil
  then show ?case by auto
next
  case (Cons c cs)
  show ?case
  proof
    assume "str_includes (c # cs) p"
    then consider "startsWith (c # cs) p" | "str_includes cs p" by auto
    then show "\<exists>ps ss. c # cs = ps @ p @ ss"
    proof cases
      case 1
      then obtain ss where "c # cs = p @ ss" by (auto simp: startsWith_iff)
      then have "c # cs = [] @ p @ ss" by simp
      then show ?thesis by blast
    next
      case 2
      then obtain ps ss where "cs = ps @ p @ ss" using Cons.IH by blast
      then have "c # cs = (c # ps) @ p @ ss" by simp
      then show ?thesis by blast
    qed
  next
    assume "\<exists>ps ss. c # cs = ps @ p @ ss"
    then obtain ps ss where e: "c # cs = ps @ p @ ss" by blast
    show "str_includes (c # cs) p"
    proof (cases ps)
      case Nil
      then have "startsWith (c # cs) p" unfolding startsWith_iff using e by auto
      then show ?thesis by simp
    next
      case (Cons a as)
      then have "cs = as @ p @ ss" using e by simp
      then have "str_includes cs p" using Cons.IH by blast
      then show ?thesis by simp
    qed
  qed
qed

lemma str_includes_suffix: "str_includes (xs @ p) p"
  unfolding str_includes_iff by (rule exI[of _ xs], rule exI[of _ "[]"]) simp

lemma str_includes_set: "str_includes s p \<Longrightarrow> set p \<subseteq> set s"
  unfolding str_includes_iff by auto

lemma containsAny_set: "containsAny s ps \<Longrightarrow> list_ex (\<lambda>p. set p \<subseteq> set s) ps"
  unfolding containsAny_def list_ex_iff using str_includes_set by blast

lemma toLowerCase_x: "toLowerCase_char CHR ''x'' = CHR ''x''"
  by code_simp

lemma toLowerCase_padded:
  "toLowerCase (replicate n CHR ''x'' @ s) = replicate n CHR ''x'' @ toLowerCase s"
  by (simp add: toLowerCase_def toLowerCase_x)

lemma no_headers: "\<not> rateLimitHeader []"
  by (simp add: rateLimitHeader_def normalizeHeaders_def truthy_def)

lemma first_match_least:
  "i < length T \<Longrightarrow> fst (T ! i) x \<Longrightarrow> (\<forall>j<i. \<not> fst (T ! j) x)
    \<Longrightarrow> first_match T x = snd (T ! i) x"
proof (induction T arbitrary: i)
  case Nil
  then show ?case by simp
next
  case (Cons r T)
  show ?case
  proof (cases i)
    case 0
    then show ?thesis using Cons.prems by simp
  next
    case (Suc k)
    have "\<not> fst r x" using Cons.prems(3) Suc by auto
    moreover have "first_match T x = snd (T ! k) x"
    proof (rule Cons.IH)
      show "k < length T" using Cons.prems(1) Suc by simp
      show "fst (T ! k) x" using Cons.prems(2) Suc by simp
      show "\<forall>j<k. \<not> fst (T ! j) x"
      proof (intro allI impI)
        fix j assume "j < k"
        then have "Suc j < i" using Suc by simp
        then have "\<not> fst ((r # T) ! Suc j) x" using Cons.prems(3) by blast
        then show "\<not> fst (T ! j) x" by simp
      qed
    qed
    ultimately show ?thesis using Suc by simp
  qed
qed

lemma detectBlock_first_match:
  "detectBlock s b h = first_match precedence_table_amended (s, b, h)"
  by (simp add: detectBlock_def precedence_table_amended_def Let_def)

subsection \<open>The precedence of the rules\<close>

lemma empty_body_patterns:
  "\<not> containsAny (toLowerCase []) CAPTCHA_PATTERNS"
  "\<not> containsAny (toLowerCase []) BOT_DETECTION_PATTERNS"
  by code_simp+

lemma detectBlock_403_empty: "detectBlock 403 [] [] = blocked ip_block 0.8"
  using empty_body_patterns no_headers by (simp add: detectBlock_unfold)

lemma detectBlock_429_empty: "detectBlock 429 [] [] = blocked rate_limited 0.95"
  using no_headers by (simp add: detectBlock_unfold)

lemma retry_after_60: "normalizeHeaders [(''Retry-After'', ''60'')] ''retry-after'' = Some ''60''"
  by code_simp

lemma detectBlock_retry_after:
  "detectBlock 200 [] [(''Retry-After'', ''60'')] = blocked rate_limited 0.95"
  using retry_after_60 by (simp add: detectBlock_unfold rateLimitHeader_def truthy_def)

text \<open>
  C1 (as amended). For every input, \<open>detectBlock\<close> answers with the output of the first
  rule of the amended table whose precondition holds: no later rule's output is
  returned when an earlier rule's precondition holds. The amended table is the table
  of section 4.1 with rule 1 asking for a non-empty \<open>retry-after\<close> value and rule 5
  holding only for a 401 whose body has an IP-block pattern. The three literal
  results of the claim hold.
\<close>

theorem detectBlock_precedence:
  "detectBlock s b h = first_match precedence_table_amended (s, b, h)
   \<and> (\<forall>i < length precedence_table_amended.
        fst (precedence_table_amended ! i) (s, b, h)
        \<and> (\<forall>j < i. \<not> fst (precedence_table_amended ! j) (s, b, h))
        \<longrightarrow> detectBlock s b h = snd (precedence_table_amended ! i) (s, b, h))
   \<and> detectBlock 403 [] [] = \<lparr>isBlocked = True, reason = Some ip_block, confidence = 0.8\<rparr>
   \<and> detectBlock 429 [] [] = \<lparr>isBlocked = True, reason = Some rate_limited, confidence = 0.95\<rparr>
   \<and> detectBlock 200 [] [(''Retry-After'', ''60'')]
       = \<lparr>isBlocked = True, reason = Some rate_limited, confidence = 0.95\<rparr>"
proof (intro conjI)
  show eq: "detectBlock s b h = first_match precedence_table_amended (s, b, h)"
    by (rule detectBlock_first_match)
  show "\<forall>i < length precedence_table_amended.
        fst (precedence_table_amended ! i) (s, b, h)
        \<and> (\<forall>j < i. \<not> fst (precedence_table_amended ! j) (s, b, h))
        \<longrightarrow> detectBlock s b h = snd (precedence_table_amended ! i) (s, b, h)"
    unfolding eq using first_match_least by blast
  show "detectBlock 403 [] [] = \<lparr>isBlocked = True, reason = Some ip_block, confidence = 0.8\<rparr>"
    using detectBlock_403_empty by (simp add: blocked_def)
  show "detectBlock 429 [] [] = \<lparr>isBlocked = True, reason = Some rate_limited, confidence = 0.95\<rparr>"
    using detectBlock_429_empty by (simp add: blocked_def)
  show "detectBlock 200 [] [(''Retry-After'', ''60'')]
       = \<lparr>isBlocked = True, reason = Some rate_limited, confidence = 0.95\<rparr>"
    using detectBlock_retry_after by (simp add: blocked_def)
qed

lemma forbidden_ip: "containsAny (toLowerCase ''forbidden'') IP_BLOCK_PATTERNS"
  by code_simp

lemma table_401_forbidden:
  "fst (precedence_table_amended ! 4) (401, ''forbidden'', [])"
  "\<not> fst (precedence_table_amended ! 0) (401, ''forbidden'', [])"
  "\<not> fst (precedence_table_amended ! 1) (401, ''forbidden'', [])"
  "\<not> fst (precedence_table_amended ! 2) (401, ''forbidden'', [])"
  "\<not> fst (precedence_table_amended ! 3) (401, ''forbidden'', [])"
  "snd (precedence_table_amended ! 4) (401, ''forbidden'', []) = blocked ip_block 0.7"
  using forbidden_ip
  by (simp_all add: precedence_table_amended_def normalizeHeaders_def truthy_def)

lemma less_4_cases: "j < (4::nat) \<Longrightarrow> j = 0 \<or> j = 1 \<or> j = 2 \<or> j = 3"
  by arith

theorem detectBlock_precedence_witness:
  "fst (precedence_table_amended ! 4) (401, ''forbidden'', [])
   \<and> \<not> fst (precedence_table_amended ! 0) (401, ''forbidden'', [])
   \<and> \<not> fst (precedence_table_amended ! 1) (401, ''forbidden'', [])
   \<and> \<not> fst (precedence_table_amended ! 2) (401, ''forbidden'', [])
   \<and> \<not> fst (precedence_table_amended ! 3) (401, ''forbidden'', [])
   \<and> detectBlock 401 ''forbidden'' [] = blocked ip_block 0.7"
proof -
  have len: "4 < length precedence_table_amended"
    by (simp add: precedence_table_amended_def)
  have earlier: "\<forall>j<4. \<not> fst (precedence_table_amended ! j) (401, ''forbidden'', [])"
    using table_401_forbidden(2-5) less_4_cases by fastforce
  have "detectBlock 401 ''forbidden'' []
          = snd (precedence_table_amended ! 4) (401, ''forbidden'', [])"
    using detectBlock_precedence[of 401 "''forbidden''" "[]"] len table_401_forbidden(1) earlier
    by blast
  then show ?thesis using table_401_forbidden by simp
qed

lemma captcha_patterns:
  "\<not> containsAny (toLowerCase ''captcha'') IP_BLOCK_PATTERNS"
  "containsAny (toLowerCase ''captcha'') CAPTCHA_PATTERNS"
  by code_simp+

lemma spec_table_401: "first_match precedence_table (401, ''captcha'', []) = notBlocked"
  using captcha_patterns by (simp add: precedence_table_def normalizeHeaders_def present_def)

lemma code_401: "detectBlock 401 ''captcha'' [] = blocked captcha 0.9"
  using captcha_patterns no_headers by (simp add: detectBlock_unfold)

lemma empty_retry_after:
  "normalizeHeaders [(''Retry-After'', [])] ''retry-after'' = Some []"
  "normalizeHeaders [(''Retry-After'', [])] ''x-ratelimit-remaining'' = None"
  "normalizeHeaders [(''Retry-After'', [])] ''x-rate-limit-remaining'' = None"
  by code_simp+

lemma spec_table_hdr:
  "first_match precedence_table (200, ''hello'', [(''Retry-After'', [])])
     = blocked rate_limited 0.95"
  using empty_retry_after by (simp add: precedence_table_def present_def)

lemma hello_patterns:
  "\<not> containsAny (toLowerCase ''hello'') IP_BLOCK_PATTERNS"
  "\<not> containsAny (toLowerCase ''hello'') CAPTCHA_PATTERNS"
  "\<not> containsAny (toLowerCase ''hello'') CLOUDFLARE_PATTERNS"
  "\<not> containsAny (toLowerCase ''hello'') BOT_DETECTION_PATTERNS"
  "\<not> containsAny (toLowerCase ''hello'') RATE_LIMIT_PATTERNS"
  by code_simp+

lemma hello_trim: "trim ''hello'' = ''hello''"
  by code_simp

lemma code_hdr: "detectBlock 200 ''hello'' [(''Retry-After'', [])] = notBlocked"
  using empty_retry_after hello_patterns hello_trim
  by (simp add: detectBlock_unfold rateLimitHeader_def truthy_def)

theorem detectBlock_table_counterexample:
  "detectBlock 401 ''captcha'' [] = blocked captcha 0.9
   \<and> first_match precedence_table (401, ''captcha'', []) = notBlocked
   \<and> detectBlock 401 ''captcha'' [] \<noteq> first_match precedence_table (401, ''captcha'', [])
   \<and> detectBlock 200 ''hello'' [(''Retry-After'', [])] = notBlocked
   \<and> first_match precedence_table (200, ''hello'', [(''Retry-After'', [])])
       = blocked rate_limited 0.95
   \<and> detectBlock 200 ''hello'' [(''Retry-After'', [])]
       \<noteq> first_match precedence_table (200, ''hello'', [(''Retry-After'', [])])"
  unfolding spec_table_401 code_401 spec_table_hdr code_hdr
  using blocked_neq_notBlocked[of captcha "0.9"] blocked_neq_notBlocked[of rate_limited "0.95"]
  by auto

subsection \<open>Status 401\<close>

text \<open>
  C3 (as amended). For every input with status 401 and no rate-limit header: if the
  lowercased body contains an IP-block pattern the result is \<open>ip_block\<close> at 0.7;
  otherwise the body decides, through the CAPTCHA, Cloudflare, bot-detection and
  rate-limit patterns in that order, and the result is "not blocked" when the body has
  none of the five kinds of pattern.
\<close>

theorem detectBlock_401:
  assumes "\<not> rateLimitHeader h"
  shows "(containsAny (toLowerCase b) IP_BLOCK_PATTERNS
            \<longrightarrow> detectBlock 401 b h = blocked ip_block 0.7)
    \<and> (\<not> containsAny (toLowerCase b) IP_BLOCK_PATTERNS \<longrightarrow> detectBlock 401 b h =
         (if containsAny (toLowerCase b) CAPTCHA_PATTERNS then
            (if length b < 50000 then blocked captcha 0.9 else blocked captcha 0.6)
          else if containsAny (toLowerCase b) CLOUDFLARE_PATTERNS then
            (if length b < 15000 then blocked robot_detected 0.85 else notBlocked)
          else if containsAny (toLowerCase b) BOT_DETECTION_PATTERNS then
            (if length b < 20000 then blocked robot_detected 0.8
             else blocked robot_detected 0.5)
          else if containsAny (toLowerCase b) RATE_LIMIT_PATTERNS then blocked rate_limited 0.75
          else notBlocked))
    \<and> (\<not> containsAny (toLowerCase b) IP_BLOCK_PATTERNS
        \<and> \<not> containsAny (toLowerCase b) CAPTCHA_PATTERNS
        \<and> \<not> containsAny (toLowerCase b) CLOUDFLARE_PATTERNS
        \<and> \<not> containsAny (toLowerCase b) BOT_DETECTION_PATTERNS
        \<and> \<not> containsAny (toLowerCase b) RATE_LIMIT_PATTERNS
        \<longrightarrow> detectBlock 401 b h = notBlocked)"
  using assms by (simp add: detectBlock_unfold)

lemma your_ip: "containsAny (toLowerCase ''Your IP'') IP_BLOCK_PATTERNS"
  by code_simp

theorem detectBlock_401_witness:
  "\<not> rateLimitHeader []
   \<and> containsAny (toLowerCase ''Your IP'') IP_BLOCK_PATTERNS
   \<and> detectBlock 401 ''Your IP'' [] = blocked ip_block 0.7
   \<and> \<not> containsAny (toLowerCase ''hello'') IP_BLOCK_PATTERNS
   \<and> detectBlock 401 ''hello'' [] = notBlocked"
  using detectBlock_401[OF no_headers, of "''Your IP''"]
    detectBlock_401[OF no_headers, of "''hello''"] no_headers your_ip hello_patterns
  by blast

lemma access_denied_patterns:
  "\<not> containsAny (toLowerCase ''Access Denied'') IP_BLOCK_PATTERNS"
  "\<not> containsAny (toLowerCase ''Access Denied'') CAPTCHA_PATTERNS"
  "\<not> containsAny (toLowerCase ''Access Denied'') CLOUDFLARE_PATTERNS"
  "containsAny (toLowerCase ''Access Denied'') BOT_DETECTION_PATTERNS"
  by code_simp+

lemma access_denied: "detectBlock 401 ''Access Denied'' [] = blocked robot_detected 0.8"
  using access_denied_patterns no_headers by (simp add: detectBlock_unfold)

theorem detectBlock_401_counterexample:
  "\<not> rateLimitHeader []
   \<and> \<not> containsAny (toLowerCase ''Access Denied'') IP_BLOCK_PATTERNS
   \<and> detectBlock 401 ''Access Denied'' [] = blocked robot_detected 0.8
   \<and> detectBlock 401 ''Access Denied'' [] \<noteq> notBlocked"
  using no_headers access_denied access_denied_patterns(1)
    blocked_neq_notBlocked[of robot_detected "0.8"]
  by simp

subsection \<open>Length thresholds of the body rules\<close>

text \<open>
  C6. With no rate-limit header and a status outside 429, 403, 503 and 401: a body with
  a Cloudflare pattern and no CAPTCHA pattern is not blocked at length 15001 and is
  \<open>robot_detected\<close> at 0.85 at length 14999; a body with a CAPTCHA pattern is
  \<open>captcha\<close> at 0.6 at length 50001 and at 0.9 at length 49999.
\<close>

theorem detectBlock_length_boundaries:
  assumes "\<not> rateLimitHeader h" and "s \<notin> {429, 403, 503, 401}"
  shows "(containsAny (toLowerCase b) CLOUDFLARE_PATTERNS
          \<and> \<not> containsAny (toLowerCase b) CAPTCHA_PATTERNS \<longrightarrow>
            (length b = 15001 \<longrightarrow> detectBlock s b h = notBlocked) \<and>
            (length b = 14999 \<longrightarrow> detectBlock s b h = blocked robot_detected 0.85))
       \<and> (containsAny (toLowerCase b) CAPTCHA_PATTERNS \<longrightarrow>
            (length b = 50001 \<longrightarrow> detectBlock s b h = blocked captcha 0.6) \<and>
            (length b = 49999 \<longrightarrow> detectBlock s b h = blocked captcha 0.9))"
  using assms by (simp add: detectBlock_unfold)

lemma cloudflare_lower: "toLowerCase ''cloudflare'' = ''cloudflare''"
  by code_simp

lemma captcha_lower: "toLowerCase ''captcha'' = ''captcha''"
  by code_simp

lemma padded_cloudflare:
  "containsAny (toLowerCase (replicate n CHR ''x'' @ ''cloudflare'')) CLOUDFLARE_PATTERNS"
  "\<not> containsAny (toLowerCase (replicate n CHR ''x'' @ ''cloudflare'')) CAPTCHA_PATTERNS"
proof -
  show "containsAny (toLowerCase (replicate n CHR ''x'' @ ''cloudflare'')) CLOUDFLARE_PATTERNS"
    unfolding toLowerCase_padded cloudflare_lower containsAny_def CLOUDFLARE_PATTERNS_def
    using str_includes_suffix[of "replicate n CHR ''x''" "''cloudflare''"] by simp
  have "\<not> list_ex (\<lambda>p. set p \<subseteq> set (replicate n CHR ''x'' @ ''cloudflare'')) CAPTCHA_PATTERNS"
    by (simp add: CAPTCHA_PATTERNS_def)
  then show "\<not> containsAny (toLowerCase (replicate n CHR ''x'' @ ''cloudflare'')) CAPTCHA_PATTERNS"
    unfolding toLowerCase_padded cloudflare_lower using containsAny_set by blast
qed

lemma padded_captcha:
  "containsAny (toLowerCase (replicate n CHR ''x'' @ ''captcha'')) CAPTCHA_PATTERNS"
  unfolding toLowerCase_padded captcha_lower containsAny_def CAPTCHA_PATTERNS_def
  using str_includes_suffix[of "replicate n CHR ''x''" "''captcha''"] by simp

lemma status_200_body_rules: "(200::int) \<notin> {429, 403, 503, 401}"
  by simp

theorem detectBlock_length_boundaries_witness:
  "\<not> rateLimitHeader [] \<and> (200::int) \<notin> {429, 403, 503, 401}
   \<and> length (replicate 14991 CHR ''x'' @ ''cloudflare'') = 15001
   \<and> detectBlock 200 (replicate 14991 CHR ''x'' @ ''cloudflare'') [] = notBlocked
   \<and> length (replicate 14989 CHR ''x'' @ ''cloudflare'') = 14999
   \<and> detectBlock 200 (replicate 14989 CHR ''x'' @ ''cloudflare'') []
       = blocked robot_detected 0.85
   \<and> length (replicate 49994 CHR ''x'' @ ''captcha'') = 50001
   \<and> detectBlock 200 (replicate 49994 CHR ''x'' @ ''captcha'') [] = blocked captcha 0.6
   \<and> length (replicate 49992 CHR ''x'' @ ''captcha'') = 49999
   \<and> detectBlock 200 (replicate 49992 CHR ''x'' @ ''captcha'') [] = blocked captcha 0.9"
proof -
  have l1: "length (replicate 14991 CHR ''x'' @ ''cloudflare'') = 15001" by simp
  have l2: "length (replicate 14989 CHR ''x'' @ ''cloudflare'') = 14999" by simp
  have l3: "length (replicate 49994 CHR ''x'' @ ''captcha'') = 50001" by simp
  have l4: "length (replicate 49992 CHR ''x'' @ ''captcha'') = 49999" by simp
  note b = detectBlock_length_boundaries[OF no_headers status_200_body_rules]
  have "detectBlock 200 (replicate 14991 CHR ''x'' @ ''cloudflare'') [] = notBlocked"
    using b[of "replicate 14991 CHR ''x'' @ ''cloudflare''"] padded_cloudflare[of 14991] l1
    by blast
  moreover have "detectBlock 200 (replicate 14989 CHR ''x'' @ ''cloudflare'') []
       = blocked robot_detected 0.85"
    using b[of "replicate 14989 CHR ''x'' @ ''cloudflare''"] padded_cloudflare[of 14989] l2
    by blast
  moreover have "detectBlock 200 (replicate 49994 CHR ''x'' @ ''captcha'') []
       = blocked captcha 0.6"
    using b[of "replicate 49994 CHR ''x'' @ ''captcha''"] padded_captcha[of 49994] l3
    by blast
  moreover have "detectBlock 200 (replicate 49992 CHR ''x'' @ ''captcha'') []
       = blocked captcha 0.9"
    using b[of "replicate 49992 CHR ''x'' @ ''captcha''"] padded_captcha[of 49992] l4
    by blast
  ultimately show ?thesis
    using no_headers status_200_body_rules l1 l2 l3 l4 by blast
qed

subsection \<open>The shape of the result\<close>

text \<open>
  C9. For every input, if \<open>detectBlock\<close> returns \<open>isBlocked = false\<close> then the result
  has no reason and its confidence is 0.
\<close>

theorem detectBlock_not_blocked:
  assumes "\<not> isBlocked (detectBlock s b h)"
  shows "reason (detectBlock s b h) = None \<and> confidence (detectBlock s b h) = 0"
proof -
  define Q :: "BlockDetectionResult \<Rightarrow> bool"
    where "Q = (\<lambda>r. \<not> isBlocked r \<longrightarrow> reason r = None \<and> confidence r = 0)"
  have "Q (detectBlock s b h)"
    by (rule detectBlock_cases[of h Q s b]) (simp_all add: Q_def blocked_simps)
  then show ?thesis using assms by (simp add: Q_def)
qed

lemma page_not_found_patterns:
  "\<not> containsAny (toLowerCase ''Page not found'') IP_BLOCK_PATTERNS"
  "\<not> containsAny (toLowerCase ''Page not found'') CAPTCHA_PATTERNS"
  "\<not> containsAny (toLowerCase ''Page not found'') CLOUDFLARE_PATTERNS"
  "\<not> containsAny (toLowerCase ''Page not found'') BOT_DETECTION_PATTERNS"
  "\<not> containsAny (toLowerCase ''Page not found'') RATE_LIMIT_PATTERNS"
  by code_simp+

lemma page_not_found: "detectBlock 404 ''Page not found'' [] = notBlocked"
  using page_not_found_patterns no_headers by (simp add: detectBlock_unfold)

theorem detectBlock_not_blocked_witness:
  "\<not> isBlocked (detectBlock 404 ''Page not found'' [])
   \<and> reason (detectBlock 404 ''Page not found'' []) = None
   \<and> confidence (detectBlock 404 ''Page not found'' []) = 0"
proof -
  have h: "\<not> isBlocked (detectBlock 404 ''Page not found'' [])"
    by (simp add: page_not_found blocked_simps)
  show ?thesis using detectBlock_not_blocked[OF h] h by blast
qed

text \<open>
  C10. For every input, if \<open>detectBlock\<close> returns \<open>isBlocked = true\<close> then the reason is
  set and the confidence is one of ten values between 0.3 and 0.95 (so within 0 and 1).
  A blocked result below 0.5 is either \<open>ip_block\<close> at 0.4, for a body of length at least
  20000 with an IP-block pattern, or \<open>unknown\<close> at 0.3, for a body that trims to the
  empty string at status 200; neither pipeline attaches such a result as
  \<open>blockedReason\<close>.
\<close>

theorem detectBlock_blocked_confidence:
  assumes "isBlocked (detectBlock s b h)"
  shows "reason (detectBlock s b h) \<noteq> None
    \<and> confidence (detectBlock s b h) \<in> {0.95, 0.9, 0.85, 0.8, 0.75, 0.7, 0.6, 0.5, 0.4, 0.3}
    \<and> 0.3 \<le> confidence (detectBlock s b h) \<and> confidence (detectBlock s b h) \<le> 0.95
    \<and> 0 \<le> confidence (detectBlock s b h) \<and> confidence (detectBlock s b h) \<le> 1
    \<and> (confidence (detectBlock s b h) < 0.5 \<longrightarrow>
         ((detectBlock s b h = blocked ip_block 0.4
             \<and> containsAny (toLowerCase b) IP_BLOCK_PATTERNS \<and> 20000 \<le> length b)
          \<or> (detectBlock s b h = blocked unknown 0.3 \<and> length (trim b) = 0 \<and> s = 200))
         \<and> blockedReason_playwright (detectBlock s b h) = None
         \<and> blockedReason_tlsclient (detectBlock s b h) = None)"
proof -
  define Q :: "BlockDetectionResult \<Rightarrow> bool" where "Q = (\<lambda>r. isBlocked r \<longrightarrow>
     reason r \<noteq> None
    \<and> confidence r \<in> {0.95, 0.9, 0.85, 0.8, 0.75, 0.7, 0.6, 0.5, 0.4, 0.3}
    \<and> 0.3 \<le> confidence r \<and> confidence r \<le> 0.95
    \<and> 0 \<le> confidence r \<and> confidence r \<le> 1
    \<and> (confidence r < 0.5 \<longrightarrow>
         ((r = blocked ip_block 0.4
             \<and> containsAny (toLowerCase b) IP_BLOCK_PATTERNS \<and> 20000 \<le> length b)
          \<or> (r = blocked unknown 0.3 \<and> length (trim b) = 0 \<and> s = 200))
         \<and> blockedReason_playwright r = None
         \<and> blockedReason_tlsclient r = None))"
  have "Q (detectBlock s b h)"
    by (rule detectBlock_cases[of h Q s b])
      (simp_all add: Q_def blocked_simps blockedReason_playwright_def
        blockedReason_tlsclient_def)
  then show ?thesis using assms by (simp add: Q_def)
qed

lemma empty_body_all_patterns:
  "\<not> containsAny (toLowerCase []) IP_BLOCK_PATTERNS"
  "\<not> containsAny (toLowerCase []) CLOUDFLARE_PATTERNS"
  "\<not> containsAny (toLowerCase []) RATE_LIMIT_PATTERNS"
  by code_simp+

lemma empty_body_200: "detectBlock 200 [] [] = blocked unknown 0.3"
  using empty_body_patterns empty_body_all_patterns no_headers
  by (simp add: detectBlock_unfold trim_def)

lemma padded_forbidden:
  "containsAny (toLowerCase (replicate n CHR ''x'' @ ''forbidden'')) IP_BLOCK_PATTERNS"
  "\<not> containsAny (toLowerCase (replicate n CHR ''x'' @ ''forbidden'')) CAPTCHA_PATTERNS"
  "\<not> containsAny (toLowerCase (replicate n CHR ''x'' @ ''forbidden'')) CLOUDFLARE_PATTERNS"
  "\<not> containsAny (toLowerCase (replicate n CHR ''x'' @ ''forbidden'')) BOT_DETECTION_PATTERNS"
  "\<not> containsAny (toLowerCase (replicate n CHR ''x'' @ ''forbidden'')) RATE_LIMIT_PATTERNS"
proof -
  have lower: "toLowerCase ''forbidden'' = ''forbidden''" by code_simp
  show "containsAny (toLowerCase (replicate n CHR ''x'' @ ''forbidden'')) IP_BLOCK_PATTERNS"
    unfolding toLowerCase_padded lower containsAny_def IP_BLOCK_PATTERNS_def
    using str_includes_suffix[of "replicate n CHR ''x''" "''forbidden''"] by simp
  have "\<not> list_ex (\<lambda>p. set p \<subseteq> set (replicate n CHR ''x'' @ ''forbidden'')) CAPTCHA_PATTERNS"
    by (simp add: CAPTCHA_PATTERNS_def)
  then show "\<not> containsAny (toLowerCase (replicate n CHR ''x'' @ ''forbidden'')) CAPTCHA_PATTERNS"
    unfolding toLowerCase_padded lower using containsAny_set by blast
  have "\<not> list_ex (\<lambda>p. set p \<subseteq> set (replicate n CHR ''x'' @ ''forbidden''))
          CLOUDFLARE_PATTERNS"
    by (simp add: CLOUDFLARE_PATTERNS_def)
  then show "\<not> containsAny (toLowerCase (replicate n CHR ''x'' @ ''forbidden''))
          CLOUDFLARE_PATTERNS"
    unfolding toLowerCase_padded lower using containsAny_set by blast
  have "\<not> list_ex (\<lambda>p. set p \<subseteq> set (replicate n CHR ''x'' @ ''forbidden''))
          BOT_DETECTION_PATTERNS"
    by (simp add: BOT_DETECTION_PATTERNS_def)
  then show "\<not> containsAny (toLowerCase (replicate n CHR ''x'' @ ''forbidden''))
          BOT_DETECTION_PATTERNS"
    unfolding toLowerCase_padded lower using containsAny_set by blast
  have "\<not> list_ex (\<lambda>p. set p \<subseteq> set (replicate n CHR ''x'' @ ''forbidden''))
          RATE_LIMIT_PATTERNS"
    by (simp add: RATE_LIMIT_PATTERNS_def)
  then show "\<not> containsAny (toLowerCase (replicate n CHR ''x'' @ ''forbidden''))
          RATE_LIMIT_PATTERNS"
    unfolding toLowerCase_padded lower using containsAny_set by blast
qed

lemma long_forbidden:
  "detectBlock 200 (replicate 20000 CHR ''x'' @ ''forbidden'') [] = blocked ip_block 0.4"
  using padded_forbidden[of 20000] no_headers by (simp add: detectBlock_unfold)

theorem detectBlock_blocked_confidence_witness:
  "isBlocked (detectBlock 200 [] [])
   \<and> detectBlock 200 [] [] = blocked unknown 0.3
   \<and> blockedReason_playwright (detectBlock 200 [] []) = None
   \<and> blockedReason_tlsclient (detectBlock 200 [] []) = None
   \<and> isBlocked (detectBlock 200 (replicate 20000 CHR ''x'' @ ''forbidden'') [])
   \<and> detectBlock 200 (replicate 20000 CHR ''x'' @ ''forbidden'') [] = blocked ip_block 0.4
   \<and> blockedReason_playwright (detectBlock 200 (replicate 20000 CHR ''x'' @ ''forbidden'') [])
       = None
   \<and> blockedReason_tlsclient (detectBlock 200 (replicate 20000 CHR ''x'' @ ''forbidden'') [])
       = None"
proof -
  have h1: "isBlocked (detectBlock 200 [] [])"
    by (simp add: empty_body_200 blocked_simps)
  have h2: "isBlocked (detectBlock 200 (replicate 20000 CHR ''x'' @ ''forbidden'') [])"
    by (simp add: long_forbidden blocked_simps)
  have c1: "confidence (detectBlock 200 [] []) < 0.5"
    by (simp add: empty_body_200 blocked_simps)
  have c2: "confidence (detectBlock 200 (replicate 20000 CHR ''x'' @ ''forbidden'') []) < 0.5"
    by (simp add: long_forbidden blocked_simps)
  show ?thesis
    using detectBlock_blocked_confidence[OF h1] detectBlock_blocked_confidence[OF h2]
      h1 h2 c1 c2 empty_body_200 long_forbidden
    by blast
qed

section \<open>Properties of JavaScript numbers\<close>

lemma shift_of_small: "a < 2 ^ 53 \<Longrightarrow> shift_of a = 0"
  by (simp add: shift_of.simps)

lemma shift_of_scaled: "0 \<le> m \<Longrightarrow> m < 2 ^ 53 \<Longrightarrow> shift_of (m * 2 ^ j) \<le> j"
proof (induction j)
  case 0
  then show ?case by (simp add: shift_of_small)
next
  case (Suc j)
  have half: "m * 2 ^ Suc j div 2 = m * 2 ^ j" by simp
  show ?case
  proof (cases "m * 2 ^ Suc j < 2 ^ 53")
    case True
    then show ?thesis by (simp add: shift_of_small)
  next
    case False
    then have "shift_of (m * 2 ^ Suc j) = Suc (shift_of (m * 2 ^ j))"
      using shift_of.simps[of "m * 2 ^ Suc j"] half by simp
    then show ?thesis using Suc by simp
  qed
qed

lemma round_double_exact:
  assumes "2 ^ shift_of \<bar>k\<bar> dvd \<bar>k\<bar>" and "\<bar>k\<bar> < 2 ^ 2098"
  shows "round_double k = Num k"
proof -
  let ?sh = "shift_of \<bar>k\<bar>"
  have r: "\<bar>k\<bar> mod 2 ^ ?sh = 0" using assms(1) by simp
  have q: "\<bar>k\<bar> div 2 ^ ?sh * 2 ^ ?sh = \<bar>k\<bar>" using assms(1) by simp
  have pos: "(0::int) < 2 ^ ?sh" by simp
  have "sgn k * \<bar>k\<bar> = k" by (simp add: mult_sgn_abs)
  then show ?thesis
    using assms(2) pos by (simp add: round_double_def Let_def r q)
qed

lemma round_double_int:
  assumes "\<bar>n\<bar> \<le> 2 ^ 53"
  shows "round_double (n * 2 ^ 1074) = Num (n * 2 ^ 1074)"
proof (rule round_double_exact)
  have a: "\<bar>n * 2 ^ 1074\<bar> = \<bar>n\<bar> * 2 ^ 1074" by (simp add: abs_mult)
  show "2 ^ shift_of \<bar>n * 2 ^ 1074\<bar> dvd \<bar>n * 2 ^ 1074\<bar>"
  proof (cases "\<bar>n\<bar> < 2 ^ 53")
    case True
    then have "shift_of (\<bar>n\<bar> * 2 ^ 1074) \<le> 1074"
      by (intro shift_of_scaled) simp_all
    then have "(2::int) ^ shift_of (\<bar>n\<bar> * 2 ^ 1074) dvd 2 ^ 1074"
      by (rule le_imp_power_dvd)
    then show ?thesis unfolding a by (rule dvd_mult)
  next
    case False
    then have n: "\<bar>n\<bar> = 2 ^ 53" using assms by simp
    have "\<bar>n\<bar> * 2 ^ 1074 = (2 ^ 52) * 2 ^ 1075" unfolding n by simp
    moreover have "shift_of ((2 ^ 52) * 2 ^ 1075) \<le> 1075"
      by (intro shift_of_scaled) simp_all
    then have "(2::int) ^ shift_of ((2 ^ 52) * 2 ^ 1075) dvd 2 ^ 1075"
      by (rule le_imp_power_dvd)
    then have "(2::int) ^ shift_of ((2 ^ 52) * 2 ^ 1075) dvd (2 ^ 52) * 2 ^ 1075"
      by (rule dvd_mult)
    ultimately show ?thesis unfolding a by simp
  qed
  have "\<bar>n\<bar> * 2 ^ 1074 \<le> 2 ^ 53 * 2 ^ 1074"
    using assms by (intro mult_right_mono) simp_all
  also have "\<dots> < (2::int) ^ 2098" by simp
  finally show "\<bar>n * 2 ^ 1074\<bar> < 2 ^ 2098" unfolding a .
qed

lemma js_add_int:
  "\<bar>a + b\<bar> \<le> 2 ^ 53 \<Longrightarrow> js_add (js_int a) (js_int b) = js_int (a + b)"
  using round_double_int[of "a + b"] by (simp add: js_int_def distrib_right)

lemma js_min_int: "js_min (js_int a) (js_int b) = js_int (min a b)"
  by (simp add: js_min_def js_int_def min_def)

lemma exact_value_int: "exact_value (js_int n) = of_int n"
  by (simp add: exact_value_def js_int_def)

lemma shift_of_big: "2 ^ 53 \<le> m \<Longrightarrow> m < 2 ^ 54 \<Longrightarrow> shift_of (m * 2 ^ j) = Suc j"
proof (induction j)
  case 0
  then have "m div 2 < 2 ^ 53" by simp
  then show ?case using 0 shift_of.simps[of m] by (simp add: shift_of_small)
next
  case (Suc j)
  have half: "m * 2 ^ Suc j div 2 = m * 2 ^ j" by simp
  have "(1::int) \<le> 2 ^ Suc j" by (rule one_le_power) simp
  then have "(2::int) ^ 53 * 1 \<le> m * 2 ^ Suc j"
    using Suc.prems(1) by (intro mult_mono) simp_all
  then have "\<not> m * 2 ^ Suc j < 2 ^ 53" by simp
  then have "shift_of (m * 2 ^ Suc j) = Suc (shift_of (m * 2 ^ j))"
    using shift_of.simps[of "m * 2 ^ Suc j"] half by simp
  then show ?case using Suc by simp
qed

text \<open>
  An odd multiple of \<open>2^j\<close> between \<open>2^53\<close> and \<open>2^54\<close> lies halfway between two doubles;
  \<open>2^53 + 1\<close> rounds to the even neighbour \<open>2^53\<close>.
\<close>

lemma round_double_tie:
  assumes "j \<le> 1074"
  shows "round_double ((2 ^ 53 + 1) * 2 ^ j) = Num (2 ^ 53 * 2 ^ j)"
proof -
  define K :: int where "K = (2 ^ 53 + 1) * 2 ^ j"
  have Kpos: "0 < K" by (simp add: K_def)
  have a: "\<bar>K\<bar> = K" using Kpos by simp
  have sh: "shift_of K = Suc j"
    unfolding K_def by (rule shift_of_big) simp_all
  have "K div 2 ^ Suc j = ((2 ^ 53 + 1) * 2 ^ j) div (2 * 2 ^ j)"
    by (simp add: K_def)
  also have "\<dots> = (2 ^ 53 + 1) div (2::int)"
    by (rule div_mult_mult2) simp
  finally have q: "K div 2 ^ Suc j = 2 ^ 52" by simp
  have "K mod 2 ^ Suc j = ((2 ^ 53 + 1) * 2 ^ j) mod (2 * 2 ^ j)"
    by (simp add: K_def)
  also have "\<dots> = ((2 ^ 53 + 1) mod (2::int)) * 2 ^ j"
    by (rule mod_mult_mult2)
  finally have r: "K mod 2 ^ Suc j = 2 ^ j" by simp
  have "(2::int) ^ 53 * 2 ^ j \<le> 2 ^ 53 * 2 ^ 1074"
    using assms by (intro mult_left_mono power_increasing) simp_all
  also have "\<dots> < (2::int) ^ 2098" by simp
  finally have small: "\<not> (2::int) ^ 2098 \<le> 2 ^ 52 * 2 ^ Suc j" by simp
  have tie: "\<not> ((2::int) ^ Suc j < 2 * 2 ^ j \<or> (2 * 2 ^ j = (2::int) ^ Suc j \<and> odd ((2::int) ^ 52)))"
    by simp
  have "round_double K = Num (sgn K * (2 ^ 52 * 2 ^ Suc j))"
    unfolding round_double_def Let_def a sh q r
    by (simp only: tie small if_False)
  also have "\<dots> = Num (2 ^ 53 * 2 ^ j)" using Kpos by simp
  finally show ?thesis unfolding K_def .
qed

lemma js_add_rounds: "js_add (js_int (2 ^ 53)) (js_int 1) = js_int (2 ^ 53)"
proof -
  have "js_add (js_int (2 ^ 53)) (js_int 1) = round_double ((2 ^ 53 + 1) * 2 ^ 1074)"
    unfolding js_int_def js_add.simps by (simp only: distrib_right)
  also have "\<dots> = Num (2 ^ 53 * 2 ^ 1074)"
    by (rule round_double_tie) simp
  finally show ?thesis unfolding js_int_def .
qed

section \<open>Properties of the engine router\<close>

lemma round_double_scaled:
  assumes "\<bar>m\<bar> < 2 ^ 53" and "\<bar>m\<bar> * 2 ^ j < 2 ^ 2098"
  shows "round_double (m * 2 ^ j) = Num (m * 2 ^ j)"
proof (rule round_double_exact)
  have a: "\<bar>m * 2 ^ j\<bar> = \<bar>m\<bar> * 2 ^ j" by (simp add: abs_mult)
  have "shift_of (\<bar>m\<bar> * 2 ^ j) \<le> j"
    using assms(1) by (intro shift_of_scaled) simp_all
  then have "(2::int) ^ shift_of (\<bar>m\<bar> * 2 ^ j) dvd 2 ^ j"
    by (rule le_imp_power_dvd)
  then show "2 ^ shift_of \<bar>m * 2 ^ j\<bar> dvd \<bar>m * 2 ^ j\<bar>"
    unfolding a by (rule dvd_mult)
  show "\<bar>m * 2 ^ j\<bar> < 2 ^ 2098" unfolding a by (rule assms(2))
qed

lemma actionTime_loop_foldl:
  "actionTime_loop acts acc = foldl (\<lambda>t a. js_add t (action_contribution a)) acc acts"
  by (induction acts acc rule: actionTime_loop.induct)
     (simp_all add: action_contribution_def split: Action.splits)

lemma sum_list_nonneg_ints:
  "list_all2 (\<lambda>a n. action_contribution a = js_int n \<and> 0 \<le> n) acts ns \<Longrightarrow> 0 \<le> sum_list ns"
  by (induction acts ns rule: list_all2_induct) simp_all

lemma foldl_exact:
  assumes "list_all2 (\<lambda>a n. action_contribution a = js_int n \<and> 0 \<le> n) acts ns"
    and "0 \<le> acc" and "acc + sum_list ns \<le> 2 ^ 53"
  shows "foldl (\<lambda>t a. js_add t (action_contribution a)) (js_int acc) acts
           = js_int (acc + sum_list ns)"
  using assms
proof (induction acts ns arbitrary: acc rule: list_all2_induct)
  case Nil
  then show ?case by simp
next
  case (Cons a acts n ns)
  have rest: "0 \<le> sum_list ns" using Cons.hyps(2) by (rule sum_list_nonneg_ints)
  have n: "action_contribution a = js_int n" "0 \<le> n" using Cons.hyps(1) by simp_all
  have "\<bar>acc + n\<bar> \<le> 2 ^ 53" using Cons.prems n(2) rest by simp
  then have step: "js_add (js_int acc) (action_contribution a) = js_int (acc + n)"
    unfolding n(1) by (rule js_add_int)
  have "foldl (\<lambda>t a. js_add t (action_contribution a)) (js_int (acc + n)) acts
          = js_int ((acc + n) + sum_list ns)"
    using Cons.prems n(2) by (intro Cons.IH) simp_all
  then show ?case by (simp add: step add.assoc)
qed

lemma exact_sum:
  "list_all2 (\<lambda>a n. action_contribution a = js_int n \<and> 0 \<le> n) acts ns \<Longrightarrow>
   sum_list (map (\<lambda>a. exact_value (action_contribution a)) acts) = of_int (sum_list ns)"
  by (induction acts ns rule: list_all2_induct) (simp_all add: exact_value_int)

lemma getEngineMaxTime_exact:
  assumes w: "field_int (wait r) 0 w" "0 \<le> w"
    and t: "field_int (timeout r) 300000 t"
    and acts: "list_all2 (\<lambda>a n. action_contribution a = js_int n \<and> 0 \<le> n)
                 (case actions r of None \<Rightarrow> [] | Some l \<Rightarrow> l) ns"
    and bound: "w + sum_list ns + 30000 \<le> 2 ^ 53"
  shows "getEngineMaxTime r =
      js_int (if engine r = Some ''tlsclient'' then min 15000 t
              else if engine r = Some ''playwright'' then min (w + 30000) t
              else min (w + sum_list ns + 30000) t)"
    and "exact_value (getEngineMaxTime r) = exact_bound r"
proof -
  let ?acts = "case actions r of None \<Rightarrow> [] | Some l \<Rightarrow> l"
  have W: "(case wait r of None \<Rightarrow> js_int 0 | Some x \<Rightarrow> x) = js_int w"
    using w(1) by (simp add: field_int_def split: option.splits)
  have T: "(case timeout r of None \<Rightarrow> js_int 300000 | Some x \<Rightarrow> x) = js_int t"
    using t by (simp add: field_int_def split: option.splits)
  have S: "0 \<le> sum_list ns" using acts by (rule sum_list_nonneg_ints)
  have A: "(case actions r of None \<Rightarrow> js_int 0 | Some l \<Rightarrow> actionTime_loop l (js_int 0))
             = js_int (sum_list ns)"
  proof -
    have "foldl (\<lambda>t a. js_add t (action_contribution a)) (js_int 0) ?acts
            = js_int (0 + sum_list ns)"
      using acts w(2) S bound by (intro foldl_exact) simp_all
    then show ?thesis by (simp add: actionTime_loop_foldl split: option.splits)
  qed
  have p1: "js_add (js_int w) (js_int 30000) = js_int (w + 30000)"
    using w(2) S bound by (intro js_add_int) simp
  have p2: "js_add (js_int w) (js_int (sum_list ns)) = js_int (w + sum_list ns)"
    using w(2) S bound by (intro js_add_int) simp
  have p3: "js_add (js_int (w + sum_list ns)) (js_int 30000) = js_int (w + sum_list ns + 30000)"
    using w(2) S bound by (intro js_add_int) simp
  show eq: "getEngineMaxTime r =
      js_int (if engine r = Some ''tlsclient'' then min 15000 t
              else if engine r = Some ''playwright'' then min (w + 30000) t
              else min (w + sum_list ns + 30000) t)"
    unfolding getEngineMaxTime_def Let_def W T A
    by (auto simp add: p1 p2 p3 js_min_int split: option.splits)
  have Wx: "(case wait r of None \<Rightarrow> 0 | Some x \<Rightarrow> exact_value x) = (of_int w :: rat)"
    using w(1) by (simp add: field_int_def exact_value_int split: option.splits)
  have Tx: "(case timeout r of None \<Rightarrow> 300000 | Some x \<Rightarrow> exact_value x) = (of_int t :: rat)"
    using t by (simp add: field_int_def exact_value_int split: option.splits)
  have Sx: "sum_list (map (\<lambda>a. exact_value (action_contribution a)) ?acts)
              = (of_int (sum_list ns) :: rat)"
    using acts by (rule exact_sum)
  have m: "min (of_int x) (of_int y) = (of_int (min x y) :: rat)" for x y :: int
    by (simp add: min_def)
  have "exact_bound r =
      of_int (if engine r = Some ''tlsclient'' then min 15000 t
              else if engine r = Some ''playwright'' then min (w + 30000) t
              else min (w + sum_list ns + 30000) t)"
    unfolding exact_bound_def Let_def Wx Tx Sx
    using m[of 15000 t] m[of "w + 30000" t] m[of "w + sum_list ns + 30000" t]
    by (auto split: option.splits)
  then show "exact_value (getEngineMaxTime r) = exact_bound r"
    unfolding eq by (simp only: exact_value_int)
qed

text \<open>
  C7 (as amended). \<open>getEngineMaxTime\<close> returns \<open>Math.min(15000, timeout)\<close> for tlsclient,
  \<open>Math.min(wait + 30000, timeout)\<close> for playwright, whatever the actions, and
  \<open>Math.min(wait + actionTime + 30000, timeout)\<close> for chrome-cdp, an absent engine and any
  other value, where \<open>actionTime\<close> starts at 0 and takes up, action by action, the
  milliseconds of a wait action (1000 by default) and 250 for any other action; the
  timeout defaults to 300000 and the wait to 0; every \<open>+\<close> is the addition of doubles,
  done in that order. When the wait and the actions' milliseconds are integers that are
  not negative, the timeout is an integer and \<open>wait + sum of the actions + 30000\<close> is at
  most \<open>2^53\<close>, no addition rounds and the result is the exact \<open>min\<close> of the
  specification's formula.
\<close>

theorem getEngineMaxTime_formula:
  "(engine r = Some ''tlsclient'' \<longrightarrow>
      getEngineMaxTime r
        = js_min (js_int 15000) (case timeout r of None \<Rightarrow> js_int 300000 | Some t \<Rightarrow> t))
   \<and> (engine r = Some ''playwright'' \<longrightarrow>
      getEngineMaxTime r
        = js_min (js_add (case wait r of None \<Rightarrow> js_int 0 | Some w \<Rightarrow> w) (js_int 30000))
                 (case timeout r of None \<Rightarrow> js_int 300000 | Some t \<Rightarrow> t))
   \<and> (engine r \<noteq> Some ''tlsclient'' \<and> engine r \<noteq> Some ''playwright'' \<longrightarrow>
      getEngineMaxTime r
        = js_min (js_add (js_add (case wait r of None \<Rightarrow> js_int 0 | Some w \<Rightarrow> w)
                                 (foldl (\<lambda>t a. js_add t (action_contribution a)) (js_int 0)
                                    (case actions r of None \<Rightarrow> [] | Some acts \<Rightarrow> acts)))
                         (js_int 30000))
                 (case timeout r of None \<Rightarrow> js_int 300000 | Some t \<Rightarrow> t))
   \<and> action_contribution (WaitAction (Some ms)) = ms
   \<and> action_contribution (WaitAction None) = js_int 1000
   \<and> (\<forall>a. (\<forall>ms. a \<noteq> WaitAction ms) \<longrightarrow> action_contribution a = js_int 250)
   \<and> (\<forall>w t ns.
        field_int (wait r) 0 w \<and> 0 \<le> w \<and> field_int (timeout r) 300000 t
        \<and> list_all2 (\<lambda>a n. action_contribution a = js_int n \<and> 0 \<le> n)
             (case actions r of None \<Rightarrow> [] | Some acts \<Rightarrow> acts) ns
        \<and> w + sum_list ns + 30000 \<le> 2 ^ 53
        \<longrightarrow> getEngineMaxTime r =
              js_int (if engine r = Some ''tlsclient'' then min 15000 t
                      else if engine r = Some ''playwright'' then min (w + 30000) t
                      else min (w + sum_list ns + 30000) t)
          \<and> exact_value (getEngineMaxTime r) = exact_bound r)"
proof (intro conjI allI impI)
  show "getEngineMaxTime r
        = js_min (js_int 15000) (case timeout r of None \<Rightarrow> js_int 300000 | Some t \<Rightarrow> t)"
    if "engine r = Some ''tlsclient''"
    using that by (simp add: getEngineMaxTime_def Let_def)
  show "getEngineMaxTime r
        = js_min (js_add (case wait r of None \<Rightarrow> js_int 0 | Some w \<Rightarrow> w) (js_int 30000))
                 (case timeout r of None \<Rightarrow> js_int 300000 | Some t \<Rightarrow> t)"
    if "engine r = Some ''playwright''"
    using that by (simp add: getEngineMaxTime_def Let_def)
  show "getEngineMaxTime r
        = js_min (js_add (js_add (case wait r of None \<Rightarrow> js_int 0 | Some w \<Rightarrow> w)
                                 (foldl (\<lambda>t a. js_add t (action_contribution a)) (js_int 0)
                                    (case actions r of None \<Rightarrow> [] | Some acts \<Rightarrow> acts)))
                         (js_int 30000))
                 (case timeout r of None \<Rightarrow> js_int 300000 | Some t \<Rightarrow> t)"
    if "engine r \<noteq> Some ''tlsclient'' \<and> engine r \<noteq> Some ''playwright''"
    using that
    by (auto simp add: getEngineMaxTime_def Let_def actionTime_loop_foldl split: option.splits)
  show "action_contribution (WaitAction (Some ms)) = ms"
    by (simp add: action_contribution_def)
  show "action_contribution (WaitAction None) = js_int 1000"
    by (simp add: action_contribution_def)
  show "action_contribution a = js_int 250" if "\<forall>ms. a \<noteq> WaitAction ms" for a
    using that by (cases a) (simp_all add: action_contribution_def)
next
  fix w t ns
  assume h: "field_int (wait r) 0 w \<and> 0 \<le> w \<and> field_int (timeout r) 300000 t
        \<and> list_all2 (\<lambda>a n. action_contribution a = js_int n \<and> 0 \<le> n)
             (case actions r of None \<Rightarrow> [] | Some acts \<Rightarrow> acts) ns
        \<and> w + sum_list ns + 30000 \<le> 2 ^ 53"
  show "getEngineMaxTime r =
              js_int (if engine r = Some ''tlsclient'' then min 15000 t
                      else if engine r = Some ''playwright'' then min (w + 30000) t
                      else min (w + sum_list ns + 30000) t)"
    using h by (intro getEngineMaxTime_exact(1)) simp_all
  show "exact_value (getEngineMaxTime r) = exact_bound r"
    using h by (intro getEngineMaxTime_exact(2)[of r w t ns]) simp_all
qed

theorem getEngineMaxTime_formula_witness:
  "getEngineMaxTime ((defaultRequest ''https://example.com'')\<lparr>engine := Some ''tlsclient''\<rparr>)
     = js_int 15000
   \<and> getEngineMaxTime ((defaultRequest ''https://example.com'')
        \<lparr>engine := Some ''playwright'', wait := Some (js_int 2000),
         actions := Some [WaitAction (Some (js_int 5000))]\<rparr>) = js_int 32000
   \<and> getEngineMaxTime ((defaultRequest ''https://example.com'')
        \<lparr>wait := Some (js_int 2000),
         actions := Some [WaitAction (Some (js_int 5000)), ClickAction ''#go'',
                          WaitAction None]\<rparr>)
       = js_int 38250
   \<and> exact_bound ((defaultRequest ''https://example.com'')
        \<lparr>wait := Some (js_int 2000),
         actions := Some [WaitAction (Some (js_int 5000)), ClickAction ''#go'',
                          WaitAction None]\<rparr>)
       = 38250"
proof -
  let ?u = "defaultRequest ''https://example.com''"
  have c: "action_contribution (WaitAction (Some (js_int 5000))) = js_int 5000"
    "action_contribution (ClickAction ''#go'') = js_int 250"
    "action_contribution (WaitAction None) = js_int 1000"
    by (simp_all add: action_contribution_def)
  define R1 where "R1 = ?u\<lparr>engine := Some ''tlsclient''\<rparr>"
  define R2 where "R2 = ?u\<lparr>engine := Some ''playwright'', wait := Some (js_int 2000),
         actions := Some [WaitAction (Some (js_int 5000))]\<rparr>"
  define R3 where "R3 = ?u\<lparr>wait := Some (js_int 2000),
         actions := Some [WaitAction (Some (js_int 5000)), ClickAction ''#go'',
                          WaitAction None]\<rparr>"
  have f1: "engine R1 = Some ''tlsclient''" "timeout R1 = Some (js_int 300000)"
    by (simp_all add: R1_def defaultRequest_def)
  have f2: "engine R2 = Some ''playwright''" "timeout R2 = Some (js_int 300000)"
    "wait R2 = Some (js_int 2000)" "actions R2 = Some [WaitAction (Some (js_int 5000))]"
    by (simp_all add: R2_def defaultRequest_def)
  have f3: "engine R3 = Some ''chrome-cdp''" "timeout R3 = Some (js_int 300000)"
    "wait R3 = Some (js_int 2000)"
    "actions R3 = Some [WaitAction (Some (js_int 5000)), ClickAction ''#go'', WaitAction None]"
    by (simp_all add: R3_def defaultRequest_def)
  have "getEngineMaxTime R1
          = js_min (js_int 15000) (case timeout R1 of None \<Rightarrow> js_int 300000 | Some t \<Rightarrow> t)"
    using getEngineMaxTime_formula[of R1] f1(1) by blast
  then have r1: "getEngineMaxTime R1 = js_int 15000"
    by (simp add: f1 js_min_int)
  have h2: "field_int (wait R2) 0 2000 \<and> (0::int) \<le> 2000
        \<and> field_int (timeout R2) 300000 300000
        \<and> list_all2 (\<lambda>a n. action_contribution a = js_int n \<and> 0 \<le> n)
             (case actions R2 of None \<Rightarrow> [] | Some acts \<Rightarrow> acts) [5000]
        \<and> (2000::int) + sum_list [5000] + 30000 \<le> 2 ^ 53"
    by (simp add: f2 field_int_def c)
  have "getEngineMaxTime R2 =
              js_int (if engine R2 = Some ''tlsclient'' then min 15000 300000
                      else if engine R2 = Some ''playwright'' then min (2000 + 30000) 300000
                      else min (2000 + sum_list [5000] + 30000) 300000)"
    using getEngineMaxTime_formula[of R2] h2 by blast
  then have r2: "getEngineMaxTime R2 = js_int 32000"
    by (simp add: f2)
  have h3: "field_int (wait R3) 0 2000 \<and> (0::int) \<le> 2000
        \<and> field_int (timeout R3) 300000 300000
        \<and> list_all2 (\<lambda>a n. action_contribution a = js_int n \<and> 0 \<le> n)
             (case actions R3 of None \<Rightarrow> [] | Some acts \<Rightarrow> acts) [5000, 250, 1000]
        \<and> (2000::int) + sum_list [5000, 250, 1000] + 30000 \<le> 2 ^ 53"
    by (simp add: f3 field_int_def c)
  have both: "getEngineMaxTime R3 =
              js_int (if engine R3 = Some ''tlsclient'' then min 15000 300000
                      else if engine R3 = Some ''playwright'' then min (2000 + 30000) 300000
                      else min (2000 + sum_list [5000, 250, 1000] + 30000) 300000)
          \<and> exact_value (getEngineMaxTime R3) = exact_bound R3"
    using getEngineMaxTime_formula[of R3] h3 by blast
  then have r3: "getEngineMaxTime R3 = js_int 38250"
    by (simp add: f3)
  have x3: "exact_bound R3 = 38250"
    using both unfolding r3 by (simp add: exact_value_int)
  show ?thesis using r1 r2 r3 x3 unfolding R1_def R2_def R3_def by blast
qed

lemma longWaitRequest_result: "getEngineMaxTime longWaitRequest = js_int 9007199254770992"
proof -
  have a1: "js_add (js_int 0) (js_int (2 ^ 53)) = js_int (2 ^ 53)"
    using js_add_int[of 0 "2 ^ 53"] by simp
  have "js_add (js_int (2 ^ 53)) (js_int 30000)
          = round_double ((2 ^ 52 + 15000) * 2 ^ 1075)"
    by (simp add: js_int_def)
  also have "\<dots> = Num ((2 ^ 52 + 15000) * 2 ^ 1075)"
    by (rule round_double_scaled) simp_all
  also have "\<dots> = js_int 9007199254770992"
    by (simp add: js_int_def)
  finally have a3: "js_add (js_int (2 ^ 53)) (js_int 30000) = js_int 9007199254770992" .
  have m: "js_min (js_int 9007199254770992) (js_int (2 ^ 60)) = js_int 9007199254770992"
    by (simp add: js_min_int)
  have "getEngineMaxTime longWaitRequest
          = js_min (js_add (js_add (js_int 0)
                (js_add (js_add (js_int 0) (js_int (2 ^ 53))) (js_int 1))) (js_int 30000))
              (js_int (2 ^ 60))"
    by (simp add: getEngineMaxTime_def longWaitRequest_def defaultRequest_def Let_def
          del: js_add.simps)
  then show ?thesis by (simp only: a1 js_add_rounds a3 m)
qed

lemma longWaitRequest_exact: "exact_bound longWaitRequest = 9007199254770993"
  by (simp add: exact_bound_def longWaitRequest_def defaultRequest_def Let_def
      action_contribution_def exact_value_int)

theorem getEngineMaxTime_exact_counterexample:
  "getEngineMaxTime longWaitRequest = js_int 9007199254770992
   \<and> exact_value (getEngineMaxTime longWaitRequest) = 9007199254770992
   \<and> exact_bound longWaitRequest = 9007199254770993
   \<and> exact_value (getEngineMaxTime longWaitRequest) \<noteq> exact_bound longWaitRequest"
  by (simp add: longWaitRequest_result longWaitRequest_exact exact_value_int)

section \<open>Properties of the job manager and the DELETE route\<close>

text \<open>
  C8 (as amended). DELETE /v1/scrape/:jobId, called twice in a row for any job id and any
  store, answers 200 with \<open>success: true\<close> both times, whether or not the job existed,
  and the second call leaves the store as the first left it. The two bodies agree on
  \<open>success\<close>; they are the same body when the job did not exist, and when it existed
  the first is \<open>{success: true}\<close> and the second carries the message
  \<open>Job not found or already deleted\<close> as well.
\<close>

theorem delete_v1_scrape_idempotent:
  "(let first = delete_v1_scrape js jid;
        second = delete_v1_scrape (snd first) jid
    in httpStatus (fst first) = 200 \<and> success (body (fst first)) = True
       \<and> httpStatus (fst second) = 200 \<and> success (body (fst second)) = True
       \<and> success (body (fst first)) = success (body (fst second))
       \<and> getJob (snd first) jid = None
       \<and> snd second = snd first
       \<and> body (fst first) =
           (if getJob js jid = None
            then \<lparr>success = True, message = Some ''Job not found or already deleted''\<rparr>
            else \<lparr>success = True, message = None\<rparr>)
       \<and> body (fst second)
           = \<lparr>success = True, message = Some ''Job not found or already deleted''\<rparr>)"
  by (simp add: delete_v1_scrape_def getJob_def deleteJob_def Let_def split: option.splits)

lemma delete_stored_job:
  "delete_v1_scrape [''j1'' \<mapsto> exampleJob] ''j1''
     = (\<lparr>httpStatus = 200, body = \<lparr>success = True, message = None\<rparr>\<rparr>, Map.empty)"
  by (simp add: delete_v1_scrape_def getJob_def deleteJob_def)

lemma delete_missing_job:
  "delete_v1_scrape Map.empty ''j1''
     = (\<lparr>httpStatus = 200,
         body = \<lparr>success = True, message = Some ''Job not found or already deleted''\<rparr>\<rparr>,
        Map.empty)"
  by (simp add: delete_v1_scrape_def getJob_def)

theorem delete_v1_scrape_bodies_differ:
  "body (fst (delete_v1_scrape [''j1'' \<mapsto> exampleJob] ''j1''))
     = \<lparr>success = True, message = None\<rparr>
   \<and> body (fst (delete_v1_scrape (snd (delete_v1_scrape [''j1'' \<mapsto> exampleJob] ''j1'')) ''j1''))
     = \<lparr>success = True, message = Some ''Job not found or already deleted''\<rparr>
   \<and> body (fst (delete_v1_scrape [''j1'' \<mapsto> exampleJob] ''j1''))
     \<noteq> body (fst (delete_v1_scrape (snd (delete_v1_scrape [''j1'' \<mapsto> exampleJob] ''j1''))
                  ''j1''))"
  by (simp add: delete_stored_job delete_missing_job)

lemma updateJobStatus_stored:
  "js jid = Some j \<Longrightarrow>
   updateJobStatus js jid st res now =
     js(jid \<mapsto> j\<lparr>status := st,
                   result := (case res of None \<Rightarrow> result j | Some r \<Rightarrow> Some r),
                   completedAt := (if st = completed \<or> st = failed then Some now
                                   else completedAt j)\<rparr>)"
  by (simp add: updateJobStatus_def)

text \<open>
  C5. \<open>executeJob\<close> first marks the job processing; if the pipeline's result has a
  non-empty \<open>pageError\<close> and empty content, it marks the job failed with
  \<open>{error: pageError}\<close> and returns that; otherwise it marks the job completed with the
  response and returns it; if the pipeline throws, it marks the job failed with
  \<open>{error: message}\<close> and returns that. A result with a non-empty \<open>pageError\<close> and
  non-empty content therefore gives the status completed. The returned response is as
  stated for every job; a mark is made on the job as the store holds it at that moment
  (\<open>js_end\<close> is the store when the pipeline settles).
\<close>

theorem executeJob_marks:
  assumes scraped:
    "scrape (updateJobStatus js (job_id job) processing None now) = (outcome, js_end)"
  shows "(js (job_id job) = Some j_start \<longrightarrow>
            updateJobStatus js (job_id job) processing None now
              = js(job_id job \<mapsto> j_start\<lparr>status := processing\<rparr>))
    \<and> (\<forall>res e. outcome = Returned res \<and> pageError res = Some e \<and> e \<noteq> [] \<and> content res = []
         \<longrightarrow> fst (executeJob scrape now job js) = Failure \<lparr>error = e, code = None\<rparr>
           \<and> (js_end (job_id job) = Some j_end \<longrightarrow>
                snd (executeJob scrape now job js) =
                  js_end(job_id job \<mapsto> j_end\<lparr>status := failed,
                     result := Some (Failure \<lparr>error = e, code = None\<rparr>),
                     completedAt := Some now\<rparr>)))
    \<and> (\<forall>res. outcome = Returned res
              \<and> (pageError res = None \<or> pageError res = Some [] \<or> content res \<noteq> [])
         \<longrightarrow> fst (executeJob scrape now job js) = Success res
           \<and> (js_end (job_id job) = Some j_end \<longrightarrow>
                snd (executeJob scrape now job js) =
                  js_end(job_id job \<mapsto> j_end\<lparr>status := completed,
                     result := Some (Success res), completedAt := Some now\<rparr>)))
    \<and> (\<forall>msg. outcome = Threw msg
         \<longrightarrow> fst (executeJob scrape now job js) = Failure \<lparr>error = msg, code = None\<rparr>
           \<and> (js_end (job_id job) = Some j_end \<longrightarrow>
                snd (executeJob scrape now job js) =
                  js_end(job_id job \<mapsto> j_end\<lparr>status := failed,
                     result := Some (Failure \<lparr>error = msg, code = None\<rparr>),
                     completedAt := Some now\<rparr>)))"
proof (intro conjI allI impI)
  assume "js (job_id job) = Some j_start"
  then show "updateJobStatus js (job_id job) processing None now
           = js(job_id job \<mapsto> j_start\<lparr>status := processing\<rparr>)"
    by (simp add: updateJobStatus_stored)
next
  fix res e
  assume "outcome = Returned res \<and> pageError res = Some e \<and> e \<noteq> [] \<and> content res = []"
  then show "fst (executeJob scrape now job js) = Failure \<lparr>error = e, code = None\<rparr>"
    using scraped by (simp add: executeJob_def Let_def)
next
  fix res e
  assume "outcome = Returned res \<and> pageError res = Some e \<and> e \<noteq> [] \<and> content res = []"
    and "js_end (job_id job) = Some j_end"
  then show "snd (executeJob scrape now job js) =
                  js_end(job_id job \<mapsto> j_end\<lparr>status := failed,
                     result := Some (Failure \<lparr>error = e, code = None\<rparr>),
                     completedAt := Some now\<rparr>)"
    using scraped by (simp add: executeJob_def Let_def updateJobStatus_stored)
next
  fix res
  assume "outcome = Returned res
              \<and> (pageError res = None \<or> pageError res = Some [] \<or> content res \<noteq> [])"
  then show "fst (executeJob scrape now job js) = Success res"
    using scraped by (auto simp add: executeJob_def Let_def split: option.splits)
next
  fix res
  assume "outcome = Returned res
              \<and> (pageError res = None \<or> pageError res = Some [] \<or> content res \<noteq> [])"
    and "js_end (job_id job) = Some j_end"
  then show "snd (executeJob scrape now job js) =
                  js_end(job_id job \<mapsto> j_end\<lparr>status := completed,
                     result := Some (Success res), completedAt := Some now\<rparr>)"
    using scraped
    by (auto simp add: executeJob_def Let_def updateJobStatus_stored split: option.splits)
next
  fix msg
  assume "outcome = Threw msg"
  then show "fst (executeJob scrape now job js) = Failure \<lparr>error = msg, code = None\<rparr>"
    using scraped by (simp add: executeJob_def Let_def)
next
  fix msg
  assume "outcome = Threw msg" and "js_end (job_id job) = Some j_end"
  then show "snd (executeJob scrape now job js) =
                  js_end(job_id job \<mapsto> j_end\<lparr>status := failed,
                     result := Some (Failure \<lparr>error = msg, code = None\<rparr>),
                     completedAt := Some now\<rparr>)"
    using scraped by (simp add: executeJob_def Let_def updateJobStatus_stored)
qed

theorem executeJob_marks_witness:
  "executeJob (\<lambda>s. (Returned (exampleResponse (Some ''timed out'') ''<html>''), s)) 5
      exampleJob [''j1'' \<mapsto> exampleJob]
    = (Success (exampleResponse (Some ''timed out'') ''<html>''),
       [''j1'' \<mapsto> exampleJob\<lparr>status := completed,
           result := Some (Success (exampleResponse (Some ''timed out'') ''<html>'')),
           completedAt := Some 5\<rparr>])
   \<and> executeJob (\<lambda>s. (Returned (exampleResponse (Some ''timed out'') []), s)) 5
      exampleJob [''j1'' \<mapsto> exampleJob]
    = (Failure \<lparr>error = ''timed out'', code = None\<rparr>,
       [''j1'' \<mapsto> exampleJob\<lparr>status := failed,
           result := Some (Failure \<lparr>error = ''timed out'', code = None\<rparr>),
           completedAt := Some 5\<rparr>])
   \<and> executeJob (\<lambda>s. (Threw ''click failed'', s)) 5 exampleJob [''j1'' \<mapsto> exampleJob]
    = (Failure \<lparr>error = ''click failed'', code = None\<rparr>,
       [''j1'' \<mapsto> exampleJob\<lparr>status := failed,
           result := Some (Failure \<lparr>error = ''click failed'', code = None\<rparr>),
           completedAt := Some 5\<rparr>])"
proof -
  let ?js = "[''j1'' \<mapsto> exampleJob]"
  let ?js1 = "[''j1'' \<mapsto> exampleJob\<lparr>status := processing\<rparr>]"
  have id: "job_id exampleJob = ''j1''" by (simp add: exampleJob_def)
  have first: "updateJobStatus ?js (job_id exampleJob) processing None 5 = ?js1"
    by (simp add: id updateJobStatus_def)
  have still: "?js1 (job_id exampleJob) = Some (exampleJob\<lparr>status := processing\<rparr>)"
    by (simp add: id)
  have a: "(\<lambda>s. (Returned (exampleResponse (Some ''timed out'') ''<html>''), s))
             (updateJobStatus ?js (job_id exampleJob) processing None 5)
           = (Returned (exampleResponse (Some ''timed out'') ''<html>''), ?js1)"
    by (simp only: first)
  have b: "(\<lambda>s. (Returned (exampleResponse (Some ''timed out'') []), s))
             (updateJobStatus ?js (job_id exampleJob) processing None 5)
           = (Returned (exampleResponse (Some ''timed out'') []), ?js1)"
    by (simp only: first)
  have c: "(\<lambda>s. (Threw ''click failed'', s))
             (updateJobStatus ?js (job_id exampleJob) processing None 5)
           = (Threw ''click failed'', ?js1)"
    by (simp only: first)
  have pair: "fst x = p \<Longrightarrow> snd x = q \<Longrightarrow> x = (p, q)" for x :: "Response \<times> jobs" and p q
    by auto
  have r1: "executeJob (\<lambda>s. (Returned (exampleResponse (Some ''timed out'') ''<html>''), s)) 5
      exampleJob ?js
    = (Success (exampleResponse (Some ''timed out'') ''<html>''),
       ?js1(job_id exampleJob \<mapsto> exampleJob\<lparr>status := processing\<rparr>\<lparr>status := completed,
           result := Some (Success (exampleResponse (Some ''timed out'') ''<html>'')),
           completedAt := Some 5\<rparr>))"
    using executeJob_marks[where scrape = "\<lambda>s. (Returned (exampleResponse (Some ''timed out'') ''<html>''), s)"
        and outcome = "Returned (exampleResponse (Some ''timed out'') ''<html>'')"
        and js_end = ?js1 and j_end = "exampleJob\<lparr>status := processing\<rparr>", OF a] still
    by (intro pair) (simp_all add: exampleResponse_def)
  have r2: "executeJob (\<lambda>s. (Returned (exampleResponse (Some ''timed out'') []), s)) 5
      exampleJob ?js
    = (Failure \<lparr>error = ''timed out'', code = None\<rparr>,
       ?js1(job_id exampleJob \<mapsto> exampleJob\<lparr>status := processing\<rparr>\<lparr>status := failed,
           result := Some (Failure \<lparr>error = ''timed out'', code = None\<rparr>),
           completedAt := Some 5\<rparr>))"
    using executeJob_marks[where scrape = "\<lambda>s. (Returned (exampleResponse (Some ''timed out'') []), s)"
        and outcome = "Returned (exampleResponse (Some ''timed out'') [])"
        and js_end = ?js1 and j_end = "exampleJob\<lparr>status := processing\<rparr>", OF b] still
    by (intro pair) (simp_all add: exampleResponse_def)
  have r3: "executeJob (\<lambda>s. (Threw ''click failed'', s)) 5 exampleJob ?js
    = (Failure \<lparr>error = ''click failed'', code = None\<rparr>,
       ?js1(job_id exampleJob \<mapsto> exampleJob\<lparr>status := processing\<rparr>\<lparr>status := failed,
           result := Some (Failure \<lparr>error = ''click failed'', code = None\<rparr>),
           completedAt := Some 5\<rparr>))"
    using executeJob_marks[where scrape = "\<lambda>s. (Threw ''click failed'', s)"
        and outcome = "Threw ''click failed''"
        and js_end = ?js1 and j_end = "exampleJob\<lparr>status := processing\<rparr>", OF c] still
    by (intro pair) simp_all
  show ?thesis unfolding r1 r2 r3 by (simp add: id)
qed

section \<open>Properties of the page-slot pool\<close>

lemma pool_step_bound:
  "activePages p \<le> M \<Longrightarrow> activePages (snd (pool_step M c p)) \<le> M"
  by (cases c) (auto simp add: acquirePageSlot_def releasePageSlot_def split: list.splits)

lemma pool_run_bound:
  "activePages p \<le> M \<Longrightarrow> activePages (snd (pool_run M cs p)) \<le> M"
proof (induction cs arbitrary: p)
  case Nil
  then show ?case by simp
next
  case (Cons c cs)
  have "activePages (snd (pool_step M c p)) \<le> M"
    using Cons.prems by (rule pool_step_bound)
  then have "activePages (snd (pool_run M cs (snd (pool_step M c p)))) \<le> M"
    by (rule Cons.IH)
  then show ?case by (simp add: Let_def split_beta)
qed

lemma pool_step_fifo:
  "resumed [fst (pool_step M c p)] @ pageQueue (snd (pool_step M c p))
     = pageQueue p @ enqueued [fst (pool_step M c p)]"
  by (cases c)
     (auto simp add: acquirePageSlot_def releasePageSlot_def resumed_def enqueued_def
        split: list.splits)

lemma resumed_Cons: "resumed (e # es) = resumed [e] @ resumed es"
  by (simp add: resumed_def)

lemma enqueued_Cons: "enqueued (e # es) = enqueued [e] @ enqueued es"
  by (simp add: enqueued_def)

lemma pool_run_fifo:
  "resumed (fst (pool_run M cs p)) @ pageQueue (snd (pool_run M cs p))
     = pageQueue p @ enqueued (fst (pool_run M cs p))"
proof (induction cs arbitrary: p)
  case Nil
  then show ?case by (simp add: resumed_def enqueued_def)
next
  case (Cons c cs)
  obtain e p' where step: "pool_step M c p = (e, p')" by (cases "pool_step M c p")
  obtain es p'' where run: "pool_run M cs p' = (es, p'')" by (cases "pool_run M cs p'")
  have one: "resumed [e] @ pageQueue p' = pageQueue p @ enqueued [e]"
    using pool_step_fifo[of M c p] step by simp
  have rest: "resumed es @ pageQueue p'' = pageQueue p' @ enqueued es"
    using Cons.IH[of p'] run by simp
  have "resumed (e # es) @ pageQueue p'' = resumed [e] @ (resumed es @ pageQueue p'')"
    by (simp add: resumed_Cons[of e es])
  also have "\<dots> = (resumed [e] @ pageQueue p') @ enqueued es"
    by (simp add: rest)
  also have "\<dots> = pageQueue p @ enqueued (e # es)"
    by (simp add: one enqueued_Cons[of e es])
  finally show ?case using step run by simp
qed

text \<open>
  C4. \<open>acquirePageSlot\<close> returns at once, incrementing \<open>activePages\<close>, exactly when
  \<open>activePages < MAX_CONCURRENT_PAGES\<close>, and otherwise puts the caller at the end of
  the queue; \<open>releasePageSlot\<close> resumes the head of the queue and leaves the counter
  alone when the queue is not empty, and decrements the counter otherwise. Over any
  sequence of calls from the initial pool the waiters are resumed in the order in which
  they were queued, and \<open>activePages \<le> MAX_CONCURRENT_PAGES\<close> holds (for a limit that is
  not negative). On every way out of \<open>scrapeWithPlaywright\<close> (a response, an error
  folded into a response, an \<open>ActionError\<close>) the request makes one acquire and then
  exactly one release.
\<close>

theorem page_slot_pool:
  "(activePages p < M \<longrightarrow>
      acquirePageSlot M c p = (True, p\<lparr>activePages := activePages p + 1\<rparr>))
   \<and> (\<not> activePages p < M \<longrightarrow>
      acquirePageSlot M c p = (False, p\<lparr>pageQueue := pageQueue p @ [c]\<rparr>))
   \<and> (\<forall>w ws. pageQueue p = w # ws \<longrightarrow>
      releasePageSlot p = (Some w, p\<lparr>pageQueue := ws\<rparr>))
   \<and> (pageQueue p = [] \<longrightarrow>
      releasePageSlot p = (None, p\<lparr>activePages := activePages p - 1\<rparr>))
   \<and> resumed (fst (pool_run M calls initialPool))
        @ pageQueue (snd (pool_run M calls initialPool))
      = enqueued (fst (pool_run M calls initialPool))
   \<and> (0 \<le> M \<longrightarrow> activePages (snd (pool_run M calls initialPool)) \<le> M)
   \<and> pool_calls (snd (scrapeWithPlaywright_flow c jid taken outcome
        contextOpened pageOpened pageCloseFails contextCloseFails)) = [Acquire c, Release]"
proof (intro conjI)
  show "activePages p < M \<longrightarrow>
      acquirePageSlot M c p = (True, p\<lparr>activePages := activePages p + 1\<rparr>)"
    by (simp add: acquirePageSlot_def)
  show "\<not> activePages p < M \<longrightarrow>
      acquirePageSlot M c p = (False, p\<lparr>pageQueue := pageQueue p @ [c]\<rparr>)"
    by (simp add: acquirePageSlot_def)
  show "\<forall>w ws. pageQueue p = w # ws \<longrightarrow>
      releasePageSlot p = (Some w, p\<lparr>pageQueue := ws\<rparr>)"
    by (simp add: releasePageSlot_def)
  show "pageQueue p = [] \<longrightarrow>
      releasePageSlot p = (None, p\<lparr>activePages := activePages p - 1\<rparr>)"
    by (simp add: releasePageSlot_def)
  show "resumed (fst (pool_run M calls initialPool))
        @ pageQueue (snd (pool_run M calls initialPool))
      = enqueued (fst (pool_run M calls initialPool))"
    using pool_run_fifo[of M calls initialPool] by (simp add: initialPool_def)
  show "0 \<le> M \<longrightarrow> activePages (snd (pool_run M calls initialPool)) \<le> M"
    using pool_run_bound[of initialPool M calls] by (simp add: initialPool_def)
  show "pool_calls (snd (scrapeWithPlaywright_flow c jid taken outcome
        contextOpened pageOpened pageCloseFails contextCloseFails)) = [Acquire c, Release]"
    by (cases pageOpened; cases contextOpened; cases pageCloseFails; cases contextCloseFails)
       (simp_all add: scrapeWithPlaywright_flow_def pool_calls_def Let_def)
qed

lemma pool_run_example:
  "pool_run 2 [Acquire 1, Acquire 2, Acquire 3, Acquire 4, Release, Release, Release]
      initialPool
   = ([Granted 1, Granted 2, Enqueued 3, Enqueued 4, Resumed 3, Resumed 4, Decremented],
      \<lparr>activePages = 1, pageQueue = []\<rparr>)"
  by (simp add: initialPool_def acquirePageSlot_def releasePageSlot_def)

theorem page_slot_pool_witness:
  "acquirePageSlot 2 7 \<lparr>activePages = 1, pageQueue = []\<rparr>
     = (True, \<lparr>activePages = 2, pageQueue = []\<rparr>)
   \<and> acquirePageSlot 2 7 \<lparr>activePages = 2, pageQueue = [3]\<rparr>
     = (False, \<lparr>activePages = 2, pageQueue = [3, 7]\<rparr>)
   \<and> releasePageSlot \<lparr>activePages = 2, pageQueue = [3, 7]\<rparr>
     = (Some 3, \<lparr>activePages = 2, pageQueue = [7]\<rparr>)
   \<and> releasePageSlot \<lparr>activePages = 2, pageQueue = []\<rparr>
     = (None, \<lparr>activePages = 1, pageQueue = []\<rparr>)
   \<and> resumed (fst (pool_run 2
         [Acquire 1, Acquire 2, Acquire 3, Acquire 4, Release, Release, Release] initialPool))
     = [3, 4]
   \<and> activePages (snd (pool_run 2
         [Acquire 1, Acquire 2, Acquire 3, Acquire 4, Release, Release, Release] initialPool))
     \<le> 2"
proof -
  let ?calls = "[Acquire 1, Acquire 2, Acquire 3, Acquire 4, Release, Release, Release]"
  have m: "(0::int) \<le> 2" by simp
  have e: "enqueued (fst (pool_run 2 ?calls initialPool)) = [3, 4]"
    unfolding pool_run_example by (simp add: enqueued_def)
  have q: "pageQueue (snd (pool_run 2 ?calls initialPool)) = []"
    unfolding pool_run_example by simp
  have fifo: "resumed (fst (pool_run 2 ?calls initialPool)) = [3, 4]"
    using page_slot_pool[of "\<lparr>activePages = 1, pageQueue = []\<rparr>" 2 7 ?calls]
    unfolding e q by simp
  have bound: "activePages (snd (pool_run 2 ?calls initialPool)) \<le> 2"
    using page_slot_pool[of "\<lparr>activePages = 1, pageQueue = []\<rparr>" 2 7 ?calls] m by blast
  have a1: "acquirePageSlot 2 7 \<lparr>activePages = 1, pageQueue = []\<rparr>
     = (True, \<lparr>activePages = 2, pageQueue = []\<rparr>)"
    using page_slot_pool[of "\<lparr>activePages = 1, pageQueue = []\<rparr>" 2 7 ?calls] by simp
  have a2: "acquirePageSlot 2 7 \<lparr>activePages = 2, pageQueue = [3]\<rparr>
     = (False, \<lparr>activePages = 2, pageQueue = [3, 7]\<rparr>)"
    using page_slot_pool[of "\<lparr>activePages = 2, pageQueue = [3]\<rparr>" 2 7 ?calls] by simp
  have r1: "releasePageSlot \<lparr>activePages = 2, pageQueue = [3, 7]\<rparr>
     = (Some 3, \<lparr>activePages = 2, pageQueue = [7]\<rparr>)"
    using page_slot_pool[of "\<lparr>activePages = 2, pageQueue = [3, 7]\<rparr>" 2 7 ?calls] by simp
  have r2: "releasePageSlot \<lparr>activePages = 2, pageQueue = []\<rparr>
     = (None, \<lparr>activePages = 1, pageQueue = []\<rparr>)"
    using page_slot_pool[of "\<lparr>activePages = 2, pageQueue = []\<rparr>" 2 7 ?calls] by simp
  show ?thesis using a1 a2 r1 r2 fifo bound by blast
qed

section \<open>Properties of request validation\<close>

lemma gather_fields_keys:
  "fst ` set (snd (gather_fields rs)) \<subseteq> fst ` set rs"
proof (induction rs)
  case Nil
  then show ?case by simp
next
  case (Cons r rs)
  obtain k res where r: "r = (k, res)" by (cases r)
  show ?case using Cons.IH
    by (auto simp add: r split_beta split: sum.splits option.splits)
qed

lemma map_of_insert_other:
  "k' \<noteq> k \<Longrightarrow> map_of (kvs1 @ (k, x) # kvs2) k' = map_of (kvs1 @ kvs2) k'"
  by (induction kvs1) auto

lemma parse_object_ignores:
  assumes "k \<notin> fst ` set shape"
  shows "parse validUrl (ZObject shape) (Some (JObj (kvs1 @ (k, x) # kvs2)))
           = parse validUrl (ZObject shape) (Some (JObj (kvs1 @ kvs2)))"
proof -
  have fields: "map (\<lambda>kz. (fst kz, parse validUrl (snd kz) (map_of (kvs1 @ (k, x) # kvs2) (fst kz)))) shape
        = map (\<lambda>kz. (fst kz, parse validUrl (snd kz) (map_of (kvs1 @ kvs2) (fst kz)))) shape"
  proof (rule map_cong[OF refl])
    fix kz assume "kz \<in> set shape"
    then have "fst kz \<noteq> k" using assms by auto
    then have "map_of (kvs1 @ (k, x) # kvs2) (fst kz) = map_of (kvs1 @ kvs2) (fst kz)"
      by (rule map_of_insert_other)
    then show "(fst kz, parse validUrl (snd kz) (map_of (kvs1 @ (k, x) # kvs2) (fst kz)))
             = (fst kz, parse validUrl (snd kz) (map_of (kvs1 @ kvs2) (fst kz)))"
      by (simp only:)
  qed
  have obj: "asObject (Some (JObj kvs)) = Some kvs" for kvs
    by (simp add: asObject_def)
  show ?thesis by (simp only: parse.simps obj option.case fields)
qed

lemma parse_object_keys:
  assumes "parse validUrl (ZObject shape) v = Inr (Some out)"
  shows "field_names out \<subseteq> fst ` set shape"
proof (cases "asObject v")
  case None
  then show ?thesis using assms by simp
next
  case (Some kvs)
  let ?rs = "map (\<lambda>kz. (fst kz, parse validUrl (snd kz) (map_of kvs (fst kz)))) shape"
  have "out = JObj (snd (gather_fields ?rs))"
    using assms Some by (simp add: finish_object_def split: if_splits)
  moreover have "fst ` set (snd (gather_fields ?rs)) \<subseteq> fst ` set ?rs"
    by (rule gather_fields_keys)
  moreover have "fst ` set ?rs = fst ` set shape"
    by (simp add: image_image)
  ultimately show ?thesis by (simp add: field_names_def)
qed

text \<open>
  C2 (as amended). POST /v1/scrape accepts or rejects an object on its recognized
  fields alone: a field whose name is outside the ScrapeRequest schema changes nothing in
  the outcome of the validation, wherever it stands in the object, and an accepted
  request has recognized fields only (the unrecognized ones are dropped, not rejected).
\<close>

theorem unrecognized_fields_dropped:
  "(k \<notin> fst ` set scrapeRequestShape \<longrightarrow>
      post_v1_scrape_validate validUrl (Some (JObj (kvs1 @ (k, x) # kvs2)))
        = post_v1_scrape_validate validUrl (Some (JObj (kvs1 @ kvs2))))
   \<and> (\<forall>out. post_v1_scrape_validate validUrl reqBody = Accepted (Some out)
         \<longrightarrow> field_names out \<subseteq> fst ` set scrapeRequestShape)"
proof (intro conjI impI allI)
  assume unrecognized: "k \<notin> fst ` set scrapeRequestShape"
  show "post_v1_scrape_validate validUrl (Some (JObj (kvs1 @ (k, x) # kvs2)))
          = post_v1_scrape_validate validUrl (Some (JObj (kvs1 @ kvs2)))"
    unfolding post_v1_scrape_validate_def scrapeRequestSchema_def
      parse_object_ignores[OF unrecognized]
    by (rule refl)
next
  fix out
  assume "post_v1_scrape_validate validUrl reqBody = Accepted (Some out)"
  then have "parse validUrl (ZObject scrapeRequestShape) reqBody = Inr (Some out)"
    by (simp add: post_v1_scrape_validate_def scrapeRequestSchema_def split: sum.splits)
  then show "field_names out \<subseteq> fst ` set scrapeRequestShape"
    by (rule parse_object_keys)
qed

lemma foo_unrecognized: "''foo'' \<notin> fst ` set scrapeRequestShape"
  by (simp add: scrapeRequestShape_def)

lemma url_only_accepted:
  "post_v1_scrape_validate exampleUrl (Some (JObj [(''url'', JStr ''https://example.com'')]))
   = Accepted (Some (JObj
       [(''url'', JStr ''https://example.com''), (''engine'', JStr ''chrome-cdp''),
        (''timeout'', JNum 300000), (''wait'', JNum 0), (''screenshot'', JBool False),
        (''fullPageScreenshot'', JBool False), (''stealth'', JBool True),
        (''blockMedia'', JBool True), (''blockAds'', JBool True), (''mobile'', JBool False),
        (''skipTlsVerification'', JBool False), (''instantReturn'', JBool False),
        (''priority'', JNum 1), (''logRequest'', JBool True),
        (''saveScrapeResultToGCS'', JBool False), (''zeroDataRetention'', JBool False)]))"
  by (simp add: post_v1_scrape_validate_def scrapeRequestSchema_def scrapeRequestShape_def
      asObject_def finish_object_def checkUrl_def checkEnum_def checkNumber_def
      checkBoolean_def exampleUrl_def)

theorem unrecognized_fields_dropped_witness:
  "''foo'' \<notin> fst ` set scrapeRequestShape
   \<and> post_v1_scrape_validate exampleUrl
        (Some (JObj [(''url'', JStr ''https://example.com''), (''foo'', JNum 1)]))
     = post_v1_scrape_validate exampleUrl (Some (JObj [(''url'', JStr ''https://example.com'')]))
   \<and> field_names (JObj
       [(''url'', JStr ''https://example.com''), (''engine'', JStr ''chrome-cdp''),
        (''timeout'', JNum 300000), (''wait'', JNum 0), (''screenshot'', JBool False),
        (''fullPageScreenshot'', JBool False), (''stealth'', JBool True),
        (''blockMedia'', JBool True), (''blockAds'', JBool True), (''mobile'', JBool False),
        (''skipTlsVerification'', JBool False), (''instantReturn'', JBool False),
        (''priority'', JNum 1), (''logRequest'', JBool True),
        (''saveScrapeResultToGCS'', JBool False), (''zeroDataRetention'', JBool False)])
     \<subseteq> fst ` set scrapeRequestShape"
proof -
  note t = unrecognized_fields_dropped[of "''foo''" exampleUrl
      "[(''url'', JStr ''https://example.com'')]" "JNum 1" "[]"
      "Some (JObj [(''url'', JStr ''https://example.com'')])"]
  have "post_v1_scrape_validate exampleUrl
        (Some (JObj [(''url'', JStr ''https://example.com''), (''foo'', JNum 1)]))
     = post_v1_scrape_validate exampleUrl (Some (JObj [(''url'', JStr ''https://example.com'')]))"
    using t foo_unrecognized by simp
  moreover have "field_names (JObj
       [(''url'', JStr ''https://example.com''), (''engine'', JStr ''chrome-cdp''),
        (''timeout'', JNum 300000), (''wait'', JNum 0), (''screenshot'', JBool False),
        (''fullPageScreenshot'', JBool False), (''stealth'', JBool True),
        (''blockMedia'', JBool True), (''blockAds'', JBool True), (''mobile'', JBool False),
        (''skipTlsVerification'', JBool False), (''instantReturn'', JBool False),
        (''priority'', JNum 1), (''logRequest'', JBool True),
        (''saveScrapeResultToGCS'', JBool False), (''zeroDataRetention'', JBool False)])
     \<subseteq> fst ` set scrapeRequestShape"
    using t url_only_accepted by blast
  ultimately show ?thesis using foo_unrecognized by blast
qed

lemma extra_field_accepted:
  "post_v1_scrape_validate exampleUrl
     (Some (JObj [(''url'', JStr ''https://example.com''), (''notAField'', JBool True)]))
   = Accepted (Some (JObj
       [(''url'', JStr ''https://example.com''), (''engine'', JStr ''chrome-cdp''),
        (''timeout'', JNum 300000), (''wait'', JNum 0), (''screenshot'', JBool False),
        (''fullPageScreenshot'', JBool False), (''stealth'', JBool True),
        (''blockMedia'', JBool True), (''blockAds'', JBool True), (''mobile'', JBool False),
        (''skipTlsVerification'', JBool False), (''instantReturn'', JBool False),
        (''priority'', JNum 1), (''logRequest'', JBool True),
        (''saveScrapeResultToGCS'', JBool False), (''zeroDataRetention'', JBool False)]))"
  by (simp add: post_v1_scrape_validate_def scrapeRequestSchema_def scrapeRequestShape_def
      asObject_def finish_object_def checkUrl_def checkEnum_def checkNumber_def
      checkBoolean_def exampleUrl_def)

theorem unrecognized_field_counterexample:
  "''notAField'' \<in> field_names
       (JObj [(''url'', JStr ''https://example.com''), (''notAField'', JBool True)])
   \<and> ''notAField'' \<notin> fst ` set scrapeRequestShape
   \<and> post_v1_scrape_validate exampleUrl
        (Some (JObj [(''url'', JStr ''https://example.com''), (''notAField'', JBool True)]))
     = Accepted (Some (JObj
       [(''url'', JStr ''https://example.com''), (''engine'', JStr ''chrome-cdp''),
        (''timeout'', JNum 300000), (''wait'', JNum 0), (''screenshot'', JBool False),
        (''fullPageScreenshot'', JBool False), (''stealth'', JBool True),
        (''blockMedia'', JBool True), (''blockAds'', JBool True), (''mobile'', JBool False),
        (''skipTlsVerification'', JBool False), (''instantReturn'', JBool False),
        (''priority'', JNum 1), (''logRequest'', JBool True),
        (''saveScrapeResultToGCS'', JBool False), (''zeroDataRetention'', JBool False)]))"
proof -
  have "''notAField'' \<in> field_names
       (JObj [(''url'', JStr ''https://example.com''), (''notAField'', JBool True)])"
    by (simp add: field_names_def)
  moreover have "''notAField'' \<notin> fst ` set scrapeRequestShape"
    by (simp add: scrapeRequestShape_def)
  ultimately show ?thesis using extra_field_accepted by blast
qed


end
